theory Spec2Isabelle
  imports Main "HOL-Library.AList"
begin

section \<open>JavaScript values and objects\<close>

text \<open>
  The property values that occur in user records, request bodies and token payloads
  are primitive JavaScript values. Numbers are modelled as unbounded integers (the ids
  of the store are small counters), so \<open>===\<close> on these values is HOL equality.
\<close>

datatype jsval = JUndefined | JNull | JBool bool | JNum int | JStr string

text \<open>
  A plain object is its list of properties in insertion order. Reading a property
  that is absent yields \<open>undefined\<close>.
\<close>

type_synonym obj = "(string \<times> jsval) list"

definition getp :: "obj \<Rightarrow> string \<Rightarrow> jsval" where
  "getp ob k = (case map_of ob k of None \<Rightarrow> JUndefined | Some v \<Rightarrow> v)"

text \<open>Truthiness, as \<open>if (x)\<close>, \<open>!x\<close> and \<open>x || y\<close> read a value.\<close>

fun truthy :: "jsval \<Rightarrow> bool" where
  "truthy JUndefined = False"
| "truthy JNull = False"
| "truthy (JBool b) = b"
| "truthy (JNum n) = (n \<noteq> 0)"
| "truthy (JStr s) = (s \<noteq> [])"

text \<open>
  The object spread \<open>{...a, ...b}\<close>: the properties of \<open>a\<close>, each property of \<open>b\<close>
  written over it in turn (an existing key keeps its place, a new key is appended).
\<close>

definition spread :: "obj \<Rightarrow> obj \<Rightarrow> obj" where
  "spread a b = fold (\<lambda>(k, v). AList.update k v) b a"

text \<open>
  The rest pattern \<open>const { password, ...userWithoutPassword } = user\<close>: every
  property of \<open>user\<close> but \<open>password\<close>.
\<close>

definition withoutPassword :: "obj \<Rightarrow> obj" where
  "withoutPassword user = AList.delete ''password'' user"

definition hasProperty :: "obj \<Rightarrow> string \<Rightarrow> bool" where
  "hasProperty ob k = (k \<in> fst ` set ob)"

section \<open>The built-ins \<open>parseInt\<close>, \<open>findIndex\<close> and \<open>slice\<close>\<close>

text \<open>
  \<open>parseInt(s)\<close> without a radix, after ECMAScript: leading white space is skipped, a
  sign is read, a prefix \<open>0x\<close> selects radix 16, and the longest run of digits of the
  radix is the number. \<open>None\<close> stands for \<open>NaN\<close> (no digit was read). Strings are byte
  lists, so only the ASCII white space characters are skipped.
\<close>

definition isWhiteSpace :: "char \<Rightarrow> bool" where
  "isWhiteSpace c = (of_char c \<in> {9::nat, 10, 11, 12, 13, 32})"

definition digitValue :: "char \<Rightarrow> nat option" where
  "digitValue c =
     (let n = (of_char c :: nat) in
      if 48 \<le> n \<and> n \<le> 57 then Some (n - 48)
      else if 97 \<le> n \<and> n \<le> 122 then Some (n - 87)
      else if 65 \<le> n \<and> n \<le> 90 then Some (n - 55)
      else None)"

definition isDigitOf :: "nat \<Rightarrow> char \<Rightarrow> bool" where
  "isDigitOf R c = (case digitValue c of None \<Rightarrow> False | Some d \<Rightarrow> d < R)"

definition digitsValue :: "nat \<Rightarrow> string \<Rightarrow> nat" where
  "digitsValue R z = foldl (\<lambda>acc c. acc * R + (case digitValue c of None \<Rightarrow> 0 | Some d \<Rightarrow> d)) 0 z"

definition stripSign :: "string \<Rightarrow> int \<times> string" where
  "stripSign s =
     (case s of
        [] \<Rightarrow> (1, s)
      | c # r \<Rightarrow> if c = CHR ''-'' then (- 1, r) else if c = CHR ''+'' then (1, r) else (1, s))"

definition stripPrefix :: "string \<Rightarrow> nat \<times> string" where
  "stripPrefix s =
     (case s of
        a # b # r \<Rightarrow>
          if a = CHR ''0'' \<and> (b = CHR ''x'' \<or> b = CHR ''X'') then (16, r) else (10, s)
      | _ \<Rightarrow> (10, s))"

definition parseIntString :: "string \<Rightarrow> int option" where
  "parseIntString str =
     (let (sign, s1) = stripSign (dropWhile isWhiteSpace str);
          (R, s2) = stripPrefix s1;
          z = takeWhile (isDigitOf R) s2
      in if z = [] then None else Some (sign * int (digitsValue R z)))"

text \<open>
  \<open>parseInt\<close> first converts its argument to a string: an integer reads back as
  itself, and \<open>undefined\<close>, \<open>null\<close>, \<open>true\<close> and \<open>false\<close> have no digit.
\<close>

definition parseInt :: "jsval \<Rightarrow> int option" where
  "parseInt v = (case v of JStr s \<Rightarrow> parseIntString s | JNum n \<Rightarrow> Some n | _ \<Rightarrow> None)"

text \<open>\<open>xs.findIndex(p)\<close>: the first index whose element satisfies \<open>p\<close>; \<open>None\<close> is \<open>-1\<close>.\<close>

fun findIndex :: "('a \<Rightarrow> bool) \<Rightarrow> 'a list \<Rightarrow> nat option" where
  "findIndex p [] = None"
| "findIndex p (x # xs) =
     (if p x then Some 0 else map_option Suc (findIndex p xs))"

text \<open>
  \<open>xs.slice(start, end)\<close>, after ECMAScript: a negative bound counts from the end of
  the array, each bound is clamped to \<open>0 .. length\<close>, and an empty range gives \<open>[]\<close>.
\<close>

definition relativeIndex :: "int \<Rightarrow> int \<Rightarrow> nat" where
  "relativeIndex len i = (if i < 0 then nat (max (len + i) 0) else nat (min i len))"

definition slice :: "'a list \<Rightarrow> int \<Rightarrow> int \<Rightarrow> 'a list" where
  "slice xs start fin =
     (let len = int (length xs);
          k = relativeIndex len start;
          final = relativeIndex len fin
      in take (final - k) (drop k xs))"

text \<open>
  \<open>Math.ceil(a / b)\<close> for integers \<open>a\<close> and \<open>b \<noteq> 0\<close>; the quotient is rounded by
  integer division, so the rounding errors of floating point are left out.
\<close>

definition ceilDiv :: "int \<Rightarrow> int \<Rightarrow> int" where
  "ceilDiv a b = - ((- a) div b)"

section \<open>The user model (\<open>models/User.js\<close>)\<close>

text \<open>
  The module state: the array \<open>users\<close> and the counter \<open>nextUserId\<close>. Every function
  takes the state and those that write return the new one.
\<close>

record store =
  users :: "obj list"
  nextUserId :: int

text \<open>
  The state at start-up: the one seeded administrator. Its \<open>createdAt\<close> is the time
  the module was loaded.
\<close>

definition adminRecord :: "string \<Rightarrow> obj" where
  "adminRecord t0 =
     [(''id'', JNum 1),
      (''username'', JStr ''admin''),
      (''email'', JStr ''admin@example.com''),
      (''password'', JStr ''$2a$10$XOPbrlUPQdwdJUpSrIF6X.LbE14qsMmKGhM1A8W9iqaG3vv1BD7WS''),
      (''role'', JStr ''admin''),
      (''createdAt'', JStr t0)]"

definition initialStore :: "string \<Rightarrow> store" where
  "initialStore t0 = \<lparr>users = [adminRecord t0], nextUserId = 2\<rparr>"

text \<open>\<open>u.id === parseInt(id)\<close>: nothing equals \<open>NaN\<close>.\<close>

definition idIs :: "int option \<Rightarrow> obj \<Rightarrow> bool" where
  "idIs pid u = (case pid of None \<Rightarrow> False | Some n \<Rightarrow> getp u ''id'' = JNum n)"

definition findAll :: "store \<Rightarrow> obj list" where
  "findAll st = map withoutPassword (users st)"

definition findById :: "store \<Rightarrow> jsval \<Rightarrow> obj option" where
  "findById st ident =
     (case find (idIs (parseInt ident)) (users st) of
        None \<Rightarrow> None
      | Some user \<Rightarrow> Some (withoutPassword user))"

definition findByEmail :: "store \<Rightarrow> jsval \<Rightarrow> obj option" where
  "findByEmail st email = find (\<lambda>u. getp u ''email'' = email) (users st)"

definition findByUsername :: "store \<Rightarrow> jsval \<Rightarrow> obj option" where
  "findByUsername st username = find (\<lambda>u. getp u ''username'' = username) (users st)"

definition create :: "string \<Rightarrow> obj \<Rightarrow> store \<Rightarrow> obj \<times> store" where
  "create now userData st =
     (let newUser =
            AList.update ''createdAt'' (JStr now)
              (AList.update ''role''
                 (if truthy (getp userData ''role'') then getp userData ''role''
                  else JStr ''user'')
                 (spread [(''id'', JNum (nextUserId st))] userData))
      in (withoutPassword newUser,
          st\<lparr>users := users st @ [newUser], nextUserId := nextUserId st + 1\<rparr>))"

definition updateById :: "string \<Rightarrow> jsval \<Rightarrow> obj \<Rightarrow> store \<Rightarrow> obj option \<times> store" where
  "updateById now ident userData st =
     (case findIndex (idIs (parseInt ident)) (users st) of
        None \<Rightarrow> (None, st)
      | Some userIndex \<Rightarrow>
          (let updated =
                 AList.update ''updatedAt'' (JStr now)
                   (spread (users st ! userIndex) userData)
           in (Some (withoutPassword updated),
               st\<lparr>users := (users st)[userIndex := updated]\<rparr>)))"

definition deleteById :: "jsval \<Rightarrow> store \<Rightarrow> bool \<times> store" where
  "deleteById ident st =
     (case findIndex (idIs (parseInt ident)) (users st) of
        None \<Rightarrow> (False, st)
      | Some userIndex \<Rightarrow>
          (True, st\<lparr>users := take userIndex (users st) @ drop (Suc userIndex) (users st)\<rparr>))"

definition getUserStats :: "store \<Rightarrow> int \<times> int \<times> int" where
  "getUserStats st =
     (int (length (users st)),
      int (length (filter (\<lambda>u. getp u ''role'' = JStr ''admin'') (users st))),
      int (length (filter (\<lambda>u. getp u ''role'' = JStr ''user'') (users st))))"

section \<open>Requests, responses and the collaborators\<close>

text \<open>
  \<open>req.user\<close>, as the authentication middleware binds it from a verified token: the
  payload the login and registration routes sign.
\<close>

record claims =
  userId :: int
  username :: string
  role :: string

text \<open>
  The library calls of a handler and the clock. \<open>bcrypt.hash\<close>, \<open>bcrypt.compare\<close> and
  \<open>jwt.sign\<close> are not code of this repository: each is a parameter that gives the
  call's result, \<open>None\<close> when the call throws (the handler's \<open>catch\<close> answers 500).
\<close>

record env =
  bcryptHash :: "jsval \<Rightarrow> string option"
  bcryptCompare :: "jsval \<Rightarrow> jsval \<Rightarrow> bool option"
  jwtSign :: "obj \<Rightarrow> string option"
  now :: string

text \<open>The JSON bodies the handlers send, one constructor for each shape.\<close>

datatype resbody =
    ErrorBody string string
  | AuthBody string string obj
  | UserBody obj
  | UsersBody "obj list" int int int int
  | UpdatedBody string obj
  | MessageBody string
  | StatsBody int int int

datatype response = Response (status: int) (resBody: resbody)

text \<open>The user objects a response body carries.\<close>

fun userViews :: "resbody \<Rightarrow> obj list" where
  "userViews (AuthBody m t u) = [u]"
| "userViews (UserBody u) = [u]"
| "userViews (UsersBody us p l t tp) = us"
| "userViews (UpdatedBody m u) = [u]"
| "userViews (ErrorBody e m) = []"
| "userViews (MessageBody m) = []"
| "userViews (StatsBody t a r) = []"

definition tokenPayload :: "obj \<Rightarrow> obj" where
  "tokenPayload user =
     [(''userId'', getp user ''id''),
      (''username'', getp user ''username''),
      (''role'', getp user ''role'')]"

section \<open>The authentication routes (\<open>routes/auth.js\<close>)\<close>

text \<open>
  Each handler below is the \<open>async\<close> function run from its request to its answer with
  no other handler in between. What the registration handler does when another runs
  between its \<open>await\<close>s is the subject of the next section.
\<close>

definition register :: "env \<Rightarrow> obj \<Rightarrow> store \<Rightarrow> response \<times> store" where
  "register e reqBody st =
     (let username = getp reqBody ''username'';
          email = getp reqBody ''email'';
          password = getp reqBody ''password''
      in case findByEmail st email of
           Some existingUserByEmail \<Rightarrow>
             (Response 400 (ErrorBody ''User already exists''
                ''A user with this email already exists''), st)
         | None \<Rightarrow>
            (case findByUsername st username of
               Some existingUserByUsername \<Rightarrow>
                 (Response 400 (ErrorBody ''User already exists''
                    ''A user with this username already exists''), st)
             | None \<Rightarrow>
                (case bcryptHash e password of
                   None \<Rightarrow>
                     (Response 500 (ErrorBody ''Server error''
                        ''An error occurred during registration''), st)
                 | Some hashedPassword \<Rightarrow>
                    (let (newUser, st') =
                           create (now e)
                             [(''username'', username), (''email'', email),
                              (''password'', JStr hashedPassword)] st
                     in case jwtSign e (tokenPayload newUser) of
                          None \<Rightarrow>
                            (Response 500 (ErrorBody ''Server error''
                               ''An error occurred during registration''), st')
                        | Some token \<Rightarrow>
                            (Response 201
                               (AuthBody ''User registered successfully'' token newUser),
                             st')))))"

definition login :: "env \<Rightarrow> obj \<Rightarrow> store \<Rightarrow> response" where
  "login e reqBody st =
     (let email = getp reqBody ''email'';
          password = getp reqBody ''password''
      in case findByEmail st email of
           None \<Rightarrow>
             Response 401 (ErrorBody ''Invalid credentials'' ''Invalid email or password'')
         | Some user \<Rightarrow>
            (case bcryptCompare e password (getp user ''password'') of
               None \<Rightarrow>
                 Response 500 (ErrorBody ''Server error'' ''An error occurred during login'')
             | Some isPasswordValid \<Rightarrow>
                 if \<not> isPasswordValid then
                   Response 401
                     (ErrorBody ''Invalid credentials'' ''Invalid email or password'')
                 else
                   (case jwtSign e (tokenPayload user) of
                      None \<Rightarrow>
                        Response 500
                          (ErrorBody ''Server error'' ''An error occurred during login'')
                    | Some token \<Rightarrow>
                        Response 200
                          (AuthBody ''Login successful'' token (withoutPassword user)))))"

definition me :: "claims \<Rightarrow> store \<Rightarrow> response" where
  "me user st =
     (case findById st (JNum (userId user)) of
        None \<Rightarrow> Response 404 (ErrorBody ''User not found'' ''User profile not found'')
      | Some u \<Rightarrow> Response 200 (UserBody u))"

section \<open>The registration handler between its \<open>await\<close>s\<close>

text \<open>
  The registration handler is an \<open>async\<close> function: at each \<open>await\<close> (the look-up by
  email, the look-up by user name, \<open>bcrypt.hash\<close> and \<open>User.create\<close>) it is suspended
  and the handler of another request may run. The model function reads or writes the
  store when it is called, so a suspended handler holds the value it awaits. A
  registration is the point its handler has reached; a step runs it from one
  \<open>await\<close> to the next, on the store as it is then.
\<close>

datatype registration =
    Received obj
  | AwaitingEmailLookup obj "obj option"
  | AwaitingUsernameLookup obj "obj option"
  | AwaitingHash obj "string option"
  | AwaitingCreate obj
  | Responded response

definition registerStep :: "env \<Rightarrow> registration \<Rightarrow> store \<Rightarrow> registration \<times> store" where
  "registerStep e p st =
     (case p of
        Received reqBody \<Rightarrow>
          (AwaitingEmailLookup reqBody (findByEmail st (getp reqBody ''email'')), st)
      | AwaitingEmailLookup reqBody existingUserByEmail \<Rightarrow>
          (case existingUserByEmail of
             Some u \<Rightarrow>
               (Responded (Response 400 (ErrorBody ''User already exists''
                  ''A user with this email already exists'')), st)
           | None \<Rightarrow>
               (AwaitingUsernameLookup reqBody
                  (findByUsername st (getp reqBody ''username'')), st))
      | AwaitingUsernameLookup reqBody existingUserByUsername \<Rightarrow>
          (case existingUserByUsername of
             Some u \<Rightarrow>
               (Responded (Response 400 (ErrorBody ''User already exists''
                  ''A user with this username already exists'')), st)
           | None \<Rightarrow>
               (AwaitingHash reqBody (bcryptHash e (getp reqBody ''password'')), st))
      | AwaitingHash reqBody hashed \<Rightarrow>
          (case hashed of
             None \<Rightarrow>
               (Responded (Response 500 (ErrorBody ''Server error''
                  ''An error occurred during registration'')), st)
           | Some hashedPassword \<Rightarrow>
               (let (newUser, st') =
                      create (now e)
                        [(''username'', getp reqBody ''username''),
                         (''email'', getp reqBody ''email''),
                         (''password'', JStr hashedPassword)] st
                in (AwaitingCreate newUser, st')))
      | AwaitingCreate newUser \<Rightarrow>
          (case jwtSign e (tokenPayload newUser) of
             None \<Rightarrow>
               (Responded (Response 500 (ErrorBody ''Server error''
                  ''An error occurred during registration'')), st)
           | Some token \<Rightarrow>
               (Responded (Response 201
                  (AuthBody ''User registered successfully'' token newUser)), st))
      | Responded r \<Rightarrow> (Responded r, st))"

text \<open>A handler left to run alone: so many steps in a row.\<close>

fun registerSteps :: "env \<Rightarrow> nat \<Rightarrow> registration \<times> store \<Rightarrow> registration \<times> store" where
  "registerSteps e 0 ps = ps"
| "registerSteps e (Suc n) ps = registerSteps e n (registerStep e (fst ps) (snd ps))"

text \<open>
  Two registrations in flight on the one store, and a schedule that says whose
  handler runs the next step.
\<close>

datatype turn = First | Second

definition scheduleStep ::
  "env \<Rightarrow> env \<Rightarrow> registration \<times> registration \<times> store \<Rightarrow> turn \<Rightarrow>
   registration \<times> registration \<times> store" where
  "scheduleStep e1 e2 s t =
     (case s of
        (p1, p2, st) \<Rightarrow>
          (case t of
             First \<Rightarrow> (case registerStep e1 p1 st of (p1', st') \<Rightarrow> (p1', p2, st'))
           | Second \<Rightarrow> (case registerStep e2 p2 st of (p2', st') \<Rightarrow> (p1, p2', st'))))"

definition interleave ::
  "env \<Rightarrow> env \<Rightarrow> turn list \<Rightarrow> registration \<times> registration \<times> store \<Rightarrow>
   registration \<times> registration \<times> store" where
  "interleave e1 e2 schedule s = foldl (scheduleStep e1 e2) s schedule"

section \<open>The user routes (\<open>routes/users.js\<close>)\<close>

text \<open>\<open>parseInt(q) || d\<close>: the default replaces \<open>NaN\<close> and \<open>0\<close>.\<close>

definition orDefault :: "int option \<Rightarrow> int \<Rightarrow> int" where
  "orDefault p d = (case p of None \<Rightarrow> d | Some n \<Rightarrow> if n = 0 then d else n)"

definition listUsers :: "claims \<Rightarrow> obj \<Rightarrow> store \<Rightarrow> response" where
  "listUsers user query st =
     (if role user \<noteq> ''admin'' then
        Response 403 (ErrorBody ''Forbidden'' ''Admin access required'')
      else
        (let page = orDefault (parseInt (getp query ''page'')) 1;
             limit = orDefault (parseInt (getp query ''limit'')) 10;
             us = findAll st;
             startIndex = (page - 1) * limit;
             endIndex = page * limit;
             paginatedUsers = slice us startIndex endIndex
         in Response 200
              (UsersBody paginatedUsers page limit (int (length us))
                 (ceilDiv (int (length us)) limit))))"

definition getUserById :: "claims \<Rightarrow> string \<Rightarrow> store \<Rightarrow> response" where
  "getUserById user ident st =
     (if role user \<noteq> ''admin'' \<and> Some (userId user) \<noteq> parseInt (JStr ident) then
        Response 403 (ErrorBody ''Forbidden'' ''You can only access your own profile'')
      else
        (case findById st (JStr ident) of
           None \<Rightarrow>
             Response 404
               (ErrorBody ''User not found'' ''User with the specified ID does not exist'')
         | Some u \<Rightarrow> Response 200 (UserBody u)))"

text \<open>\<open>existingUser && existingUser.id !== parseInt(id)\<close>\<close>

definition takenByOther :: "obj option \<Rightarrow> string \<Rightarrow> bool" where
  "takenByOther existingUser ident =
     (case existingUser of
        None \<Rightarrow> False
      | Some u \<Rightarrow> \<not> idIs (parseInt (JStr ident)) u)"

text \<open>The end of the update handler: the write and the answer.\<close>

definition finishUpdate :: "env \<Rightarrow> string \<Rightarrow> obj \<Rightarrow> store \<Rightarrow> response \<times> store" where
  "finishUpdate e ident updateData st =
     (case updateById (now e) (JStr ident) updateData st of
        (None, st') \<Rightarrow>
          (Response 404
             (ErrorBody ''User not found'' ''User with the specified ID does not exist''),
           st')
      | (Some updatedUser, st') \<Rightarrow>
          (Response 200 (UpdatedBody ''User updated successfully'' updatedUser), st'))"

definition updateUser :: "env \<Rightarrow> claims \<Rightarrow> string \<Rightarrow> obj \<Rightarrow> store \<Rightarrow> response \<times> store" where
  "updateUser e user ident reqBody st =
     (if role user \<noteq> ''admin'' \<and> Some (userId user) \<noteq> parseInt (JStr ident) then
        (Response 403 (ErrorBody ''Forbidden'' ''You can only update your own profile''), st)
      else
        (let username = getp reqBody ''username'';
             email = getp reqBody ''email'';
             password = getp reqBody ''password''
         in if truthy username \<and> takenByOther (findByUsername st username) ident then
              (Response 400 (ErrorBody ''Username already exists''
                 ''A user with this username already exists''), st)
            else
              (let updateData1 =
                     (if truthy username then AList.update ''username'' username [] else [])
               in if truthy email \<and> takenByOther (findByEmail st email) ident then
                    (Response 400 (ErrorBody ''Email already exists''
                       ''A user with this email already exists''), st)
                  else
                    (let updateData2 =
                           (if truthy email then AList.update ''email'' email updateData1
                            else updateData1)
                     in if truthy password then
                          (case bcryptHash e password of
                             None \<Rightarrow>
                               (Response 500 (ErrorBody ''Server error''
                                  ''An error occurred while updating user''), st)
                           | Some h \<Rightarrow>
                               finishUpdate e ident
                                 (AList.update ''password'' (JStr h) updateData2) st)
                        else finishUpdate e ident updateData2 st))))"

definition deleteUser :: "claims \<Rightarrow> string \<Rightarrow> store \<Rightarrow> response \<times> store" where
  "deleteUser user ident st =
     (if role user \<noteq> ''admin'' then
        (Response 403 (ErrorBody ''Forbidden'' ''Admin access required to delete users''), st)
      else if Some (userId user) = parseInt (JStr ident) then
        (Response 400 (ErrorBody ''Invalid operation'' ''You cannot delete your own account''),
         st)
      else
        (case deleteById (JStr ident) st of
           (False, st') \<Rightarrow>
             (Response 404
                (ErrorBody ''User not found'' ''User with the specified ID does not exist''),
              st')
         | (True, st') \<Rightarrow> (Response 200 (MessageBody ''User deleted successfully''), st')))"

definition getStats :: "claims \<Rightarrow> store \<Rightarrow> response" where
  "getStats user st =
     (if role user \<noteq> ''admin'' then
        Response 403 (ErrorBody ''Forbidden'' ''Admin access required'')
      else
        (case getUserStats st of
           (totalUsers, adminUsers, regularUsers) \<Rightarrow>
             Response 200 (StatsBody totalUsers adminUsers regularUsers)))"

section \<open>The router of the user routes\<close>

text \<open>
  An Express router tries its routes in the order of their registration and runs the
  handler of the first one whose method and path pattern match; the handlers here
  always answer, so no later route is tried. A path is the list of its segments below
  the mount point. \<open>/\<close> matches the empty path, \<open>/:id\<close> any single segment, which it
  binds to \<open>req.params.id\<close>, and a literal segment matches without regard to case.
\<close>

datatype verb = GET | POST | PUT | DELETE

datatype pathPattern = PRoot | PParam | PLiteral string

datatype usersHandler = HListUsers | HGetUserById | HUpdateUser | HDeleteUser | HGetStats

definition usersRoutes :: "(verb \<times> pathPattern \<times> usersHandler) list" where
  "usersRoutes =
     [(GET, PRoot, HListUsers),
      (GET, PParam, HGetUserById),
      (PUT, PParam, HUpdateUser),
      (DELETE, PParam, HDeleteUser),
      (GET, PLiteral ''stats'', HGetStats)]"

definition lowerChar :: "char \<Rightarrow> char" where
  "lowerChar c =
     (let n = (of_char c :: nat) in if 65 \<le> n \<and> n \<le> 90 then char_of (n + 32) else c)"

text \<open>The parameter a pattern binds on a path it matches (\<open>[]\<close> when it binds none).\<close>

fun matchPath :: "pathPattern \<Rightarrow> string list \<Rightarrow> string option" where
  "matchPath PRoot [] = Some []"
| "matchPath PParam [s] = (if s = [] then None else Some s)"
| "matchPath (PLiteral l) [s] = (if map lowerChar s = map lowerChar l then Some [] else None)"
| "matchPath _ _ = None"

fun firstMatch ::
  "(verb \<times> pathPattern \<times> usersHandler) list \<Rightarrow> verb \<Rightarrow> string list \<Rightarrow>
   (usersHandler \<times> string) option" where
  "firstMatch [] v path = None"
| "firstMatch ((v', pat, h) # routes) v path =
     (if v' = v then
        (case matchPath pat path of
           Some ident \<Rightarrow> Some (h, ident)
         | None \<Rightarrow> firstMatch routes v path)
      else firstMatch routes v path)"

text \<open>
  A request that passed the authentication middleware. The router answers \<open>None\<close>
  when no route matches and the request goes on to the application's 404 handler.
\<close>

record request =
  reqVerb :: verb
  reqPath :: "string list"
  reqUser :: claims
  reqQuery :: obj
  reqBody :: obj

definition usersRouter :: "env \<Rightarrow> request \<Rightarrow> store \<Rightarrow> (response \<times> store) option" where
  "usersRouter e req st =
     (case firstMatch usersRoutes (reqVerb req) (reqPath req) of
        None \<Rightarrow> None
      | Some (h, ident) \<Rightarrow>
          Some (case h of
                  HListUsers \<Rightarrow> (listUsers (reqUser req) (reqQuery req) st, st)
                | HGetUserById \<Rightarrow> (getUserById (reqUser req) ident st, st)
                | HUpdateUser \<Rightarrow> updateUser e (reqUser req) ident (reqBody req) st
                | HDeleteUser \<Rightarrow> deleteUser (reqUser req) ident st
                | HGetStats \<Rightarrow> (getStats (reqUser req) st, st)))"

section \<open>The error handler (\<open>middleware/errorHandler.js\<close>)\<close>

text \<open>
  The error object the handler reads: \<open>statusCode\<close> and \<open>errors\<close> may be absent;
  \<open>errErrors\<close> holds the messages of the values of \<open>err.errors\<close>.
\<close>

record jsError =
  errName :: string
  errMessage :: string
  errStatusCode :: "int option"
  errErrors :: "string list option"
  errStack :: string

record errorInfo =
  statusCode :: int
  message :: string
  details :: "string list option"

datatype errorJson =
  ErrorJson (jsonError: string) (jsonStack: "string option") (jsonDetails: "string list option")

text \<open>
  The handler answers a status and a JSON body; \<open>None\<close> when it throws itself
  (\<open>Object.values(undefined)\<close> for a validation error without \<open>errors\<close>). \<open>development\<close>
  says whether \<open>NODE_ENV\<close> is \<open>development\<close>.
\<close>

text \<open>\<open>if (err.statusCode)\<close>: the property is present and not zero.\<close>

definition customStatus :: "jsError \<Rightarrow> bool" where
  "customStatus err = (case errStatusCode err of None \<Rightarrow> False | Some c \<Rightarrow> c \<noteq> 0)"

definition errorHandler :: "bool \<Rightarrow> jsError \<Rightarrow> (int \<times> errorJson) option" where
  "errorHandler development err =
     (let error0 = \<lparr>statusCode = 500, message = ''Internal Server Error'', details = None\<rparr>
      in if errName err = ''ValidationError'' \<and> errErrors err = None then None
         else
           (let error1 =
                  (if errName err = ''ValidationError'' then
                     error0\<lparr>statusCode := 400, message := ''Validation Error'',
                            details := errErrors err\<rparr>
                   else error0);
                error2 =
                  (if errName err = ''JsonWebTokenError'' then
                     error1\<lparr>statusCode := 401, message := ''Invalid token''\<rparr>
                   else error1);
                error3 =
                  (if errName err = ''TokenExpiredError'' then
                     error2\<lparr>statusCode := 401, message := ''Token expired''\<rparr>
                   else error2);
                error4 =
                  (if customStatus err then
                     error3\<lparr>statusCode := the (errStatusCode err), message := errMessage err\<rparr>
                   else error3)
            in Some (statusCode error4,
                     ErrorJson (message error4)
                       (if development then Some (errStack err) else None)
                       (details error4))))"

section \<open>The properties of the specification, and example data\<close>

text \<open>
  The page of a list as the specification words it: the elements whose index lies in
  \<open>[skip, skip + pageSize)\<close>, where \<open>skip = (page - 1) * pageSize\<close>.
\<close>

definition specPage :: "'a list \<Rightarrow> int \<Rightarrow> int \<Rightarrow> 'a list" where
  "specPage xs page pageSize =
     (let skip = (page - 1) * pageSize
      in map (\<lambda>i. xs ! i)
           (filter (\<lambda>i. skip \<le> int i \<and> int i < skip + pageSize) [0 ..< length xs]))"

text \<open>
  The uniqueness invariant of the store: no two records share an email, a user name or
  an id, and every id is a number below the counter that assigns the next one.
\<close>

definition idBelow :: "int \<Rightarrow> obj \<Rightarrow> bool" where
  "idBelow next u = (case getp u ''id'' of JNum n \<Rightarrow> n < next | _ \<Rightarrow> False)"

definition uniqueStore :: "store \<Rightarrow> bool" where
  "uniqueStore st =
     (distinct (map (\<lambda>u. getp u ''email'') (users st)) \<and>
      distinct (map (\<lambda>u. getp u ''username'') (users st)) \<and>
      distinct (map (\<lambda>u. getp u ''id'') (users st)) \<and>
      list_all (idBelow (nextUserId st)) (users st))"

text \<open>How many records hold an email.\<close>

definition emailCount :: "store \<Rightarrow> jsval \<Rightarrow> nat" where
  "emailCount st email = length (filter (\<lambda>u. getp u ''email'' = email) (users st))"

text \<open>
  A field of a record after an update: it is as it was, or it is the value of the
  request body, which the handler's check found free or held by the target itself.
\<close>

definition updatedFrom ::
  "store \<Rightarrow> string \<Rightarrow> obj \<Rightarrow> string \<Rightarrow> (store \<Rightarrow> jsval \<Rightarrow> obj option) \<Rightarrow> obj \<Rightarrow> obj \<Rightarrow>
   bool" where
  "updatedFrom st i b k lookup old new =
     (getp new k = getp old k \<or>
      getp new k = getp b k \<and> \<not> takenByOther (lookup st (getp b k)) i)"

text \<open>
  Example data: a stand-in for the password hasher and the token signer, the
  registration of the scenario of the specification, the record it stores, and the
  claims of the two users' tokens.
\<close>

definition exampleEnv :: env where
  "exampleEnv =
     \<lparr>bcryptHash = (\<lambda>p. case p of JStr s \<Rightarrow> Some (''hash-of-'' @ s) | _ \<Rightarrow> None),
      bcryptCompare =
        (\<lambda>p h. case (p, h) of
                  (JStr s, JStr t) \<Rightarrow> Some (t = ''hash-of-'' @ s)
                | _ \<Rightarrow> None),
      jwtSign = (\<lambda>payload. Some ''token''),
      now = ''t1''\<rparr>"

definition aliceBody :: obj where
  "aliceBody =
     [(''username'', JStr ''alice''), (''email'', JStr ''alice@x.com''),
      (''password'', JStr ''Secret123'')]"

definition aliceRecord :: obj where
  "aliceRecord =
     [(''id'', JNum 2),
      (''username'', JStr ''alice''),
      (''email'', JStr ''alice@x.com''),
      (''password'', JStr ''hash-of-Secret123''),
      (''role'', JStr ''user''),
      (''createdAt'', JStr ''t1'')]"

definition aliceView :: obj where
  "aliceView =
     [(''id'', JNum 2),
      (''username'', JStr ''alice''),
      (''email'', JStr ''alice@x.com''),
      (''role'', JStr ''user''),
      (''createdAt'', JStr ''t1'')]"

definition adminView :: obj where
  "adminView =
     [(''id'', JNum 1),
      (''username'', JStr ''admin''),
      (''email'', JStr ''admin@example.com''),
      (''role'', JStr ''admin''),
      (''createdAt'', JStr ''t0'')]"

definition twoUsers :: store where
  "twoUsers = \<lparr>users = [adminRecord ''t0'', aliceRecord], nextUserId = 3\<rparr>"

definition adminClaims :: claims where
  "adminClaims = \<lparr>userId = 1, username = ''admin'', role = ''admin''\<rparr>"

definition aliceClaims :: claims where
  "aliceClaims = \<lparr>userId = 2, username = ''alice'', role = ''user''\<rparr>"

text \<open>
  A second registration with the email of the first and another user name, the record
  it stores when it is let through, and the store with all three records.
\<close>

definition aliceAgainBody :: obj where
  "aliceAgainBody =
     [(''username'', JStr ''alice2''), (''email'', JStr ''alice@x.com''),
      (''password'', JStr ''Other456'')]"

definition aliceAgainRecord :: obj where
  "aliceAgainRecord =
     [(''id'', JNum 3),
      (''username'', JStr ''alice2''),
      (''email'', JStr ''alice@x.com''),
      (''password'', JStr ''hash-of-Other456''),
      (''role'', JStr ''user''),
      (''createdAt'', JStr ''t1'')]"

definition aliceAgainView :: obj where
  "aliceAgainView =
     [(''id'', JNum 3),
      (''username'', JStr ''alice2''),
      (''email'', JStr ''alice@x.com''),
      (''role'', JStr ''user''),
      (''createdAt'', JStr ''t1'')]"

definition threeUsers :: store where
  "threeUsers =
     \<lparr>users = [adminRecord ''t0'', aliceRecord, aliceAgainRecord], nextUserId = 4\<rparr>"

text \<open>
  The schedule of two requests that arrive together: each handler runs up to its
  \<open>await bcrypt.hash\<close>, then each is resumed with its hash and runs to its answer.
\<close>

definition togetherSchedule :: "turn list" where
  "togetherSchedule =
     [First, First, First, Second, Second, Second, First, First, Second, Second]"

section \<open>Objects and the built-ins\<close>

lemma getp_Cons: "getp ((k, v) # ob) k' = (if k = k' then v else getp ob k')"
  by (simp add: getp_def)

lemma not_hasProperty_withoutPassword: "\<not> hasProperty (withoutPassword u) ''password''"
  by (simp add: hasProperty_def withoutPassword_def delete_notin_dom)

lemma set_slice_subset: "set (slice xs a b) \<subseteq> set xs"
proof -
  have "set (take n (drop k xs)) \<subseteq> set xs" for n k
    by (meson set_take_subset set_drop_subset subset_trans)
  then show ?thesis by (simp add: slice_def Let_def)
qed

lemmas parseInt_eval = parseInt_def parseIntString_def stripSign_def stripPrefix_def
  isWhiteSpace_def isDigitOf_def digitValue_def digitsValue_def

lemma parseInt_1: "parseInt (JStr ''1'') = Some 1"
  by (simp add: parseInt_eval)

lemma parseInt_2: "parseInt (JStr ''2'') = Some 2"
  by (simp add: parseInt_eval)

lemma parseInt_m1: "parseInt (JStr ''-1'') = Some (- 1)"
  by (simp add: parseInt_eval)

lemma parseInt_stats: "parseInt (JStr ''stats'') = None"
  by (simp add: parseInt_eval)

lemma findIndex_None_iff: "findIndex p xs = None \<longleftrightarrow> (\<forall>x \<in> set xs. \<not> p x)"
  by (induction xs) auto

lemma findIndex_Some:
  "findIndex p xs = Some i \<Longrightarrow> i < length xs \<and> p (xs ! i) \<and> (\<forall>j < i. \<not> p (xs ! j))"
proof (induction xs arbitrary: i)
  case Nil
  then show ?case by simp
next
  case (Cons x xs)
  show ?case
  proof (cases "p x")
    case True
    with Cons.prems show ?thesis by simp
  next
    case False
    with Cons.prems obtain k where k: "findIndex p xs = Some k" "i = Suc k"
      by auto
    from Cons.IH [OF k(1)] False k(2) show ?thesis
      by (auto simp: less_Suc_eq_0_disj)
  qed
qed

lemma findIndex_find:
  "findIndex p xs = Some i \<Longrightarrow> find p xs = Some (xs ! i)"
  by (induction xs arbitrary: i) (auto split: if_splits)

lemma findIndex_split:
  assumes "findIndex p xs = Some i"
  shows "xs = take i xs @ xs ! i # drop (Suc i) xs \<and> p (xs ! i) \<and>
         (\<forall>v \<in> set (take i xs). \<not> p v)"
proof -
  from findIndex_Some [OF assms] have i: "i < length xs" and p: "p (xs ! i)"
    and before: "\<forall>j < i. \<not> p (xs ! j)" by auto
  have "\<forall>v \<in> set (take i xs). \<not> p v"
  proof
    fix v assume "v \<in> set (take i xs)"
    then obtain j where "j < length (take i xs)" "take i xs ! j = v"
      by (auto simp: in_set_conv_nth)
    with before i show "\<not> p v" by auto
  qed
  with i p show ?thesis by (simp add: id_take_nth_drop [symmetric])
qed

lemma getp_update: "getp (AList.update k v ob) k' = (if k' = k then v else getp ob k')"
  by (simp add: getp_def update_conv')

lemma map_of_spread:
  "map_of (spread a b) x = (case map_of (rev b) x of None \<Rightarrow> map_of a x | Some v \<Rightarrow> Some v)"
proof (induction b arbitrary: a)
  case Nil
  then show ?case by (simp add: spread_def)
next
  case (Cons kv b)
  obtain k v where kv: "kv = (k, v)" by (cases kv)
  have "spread a (kv # b) = spread (AList.update k v a) b"
    by (simp add: spread_def kv)
  then show ?case
    by (simp add: Cons.IH kv update_conv' map_add_def split: option.splits)
qed

lemma getp_spread:
  "getp (spread a b) k = (if k \<in> fst ` set b then getp (rev b) k else getp a k)"
proof (cases "map_of (rev b) k")
  case None
  then have "k \<notin> fst ` set b"
    by (metis map_of_eq_None_iff set_rev)
  with None show ?thesis by (simp add: getp_def map_of_spread)
next
  case (Some v)
  then have "k \<in> fst ` set b"
    by (metis map_of_eq_None_iff option.distinct(1) set_rev)
  with Some show ?thesis by (simp add: getp_def map_of_spread)
qed

section \<open>The worked scenario\<close>

lemmas example_eval = twoUsers_def adminRecord_def aliceRecord_def aliceView_def adminView_def
  aliceClaims_def adminClaims_def idIs_def getp_def withoutPassword_def


lemma register_alice:
  "register exampleEnv aliceBody (initialStore ''t0'') =
     (Response 201 (AuthBody ''User registered successfully'' ''token'' aliceView), twoUsers)"
  by (simp add: register_def Let_def findByEmail_def findByUsername_def initialStore_def
      adminRecord_def aliceBody_def getp_def exampleEnv_def create_def spread_def
      withoutPassword_def tokenPayload_def aliceView_def twoUsers_def aliceRecord_def)

section \<open>No response carries a password hash\<close>

lemma findById_view: "findById st i = Some v \<Longrightarrow> \<not> hasProperty v ''password''"
  by (auto simp: findById_def not_hasProperty_withoutPassword split: option.splits)

lemma findAll_views: "v \<in> set (findAll st) \<Longrightarrow> \<not> hasProperty v ''password''"
  by (auto simp: findAll_def not_hasProperty_withoutPassword)

lemma create_view: "create t d st = (v, st') \<Longrightarrow> \<not> hasProperty v ''password''"
  by (auto simp: create_def Let_def not_hasProperty_withoutPassword)

lemma updateById_view:
  "updateById t i d st = (Some v, st') \<Longrightarrow> \<not> hasProperty v ''password''"
  by (auto simp: updateById_def Let_def not_hasProperty_withoutPassword split: option.splits)

lemma register_views:
  "v \<in> set (userViews (resBody (fst (register e b st)))) \<Longrightarrow> \<not> hasProperty v ''password''"
  by (auto simp: register_def Let_def split: option.splits prod.splits dest: create_view)

lemma login_views:
  "v \<in> set (userViews (resBody (login e b st))) \<Longrightarrow> \<not> hasProperty v ''password''"
  by (auto simp: login_def Let_def not_hasProperty_withoutPassword
      split: option.splits if_splits)

lemma me_views:
  "v \<in> set (userViews (resBody (me c st))) \<Longrightarrow> \<not> hasProperty v ''password''"
  by (auto simp: me_def split: option.splits dest: findById_view)

lemma getUserById_views:
  "v \<in> set (userViews (resBody (getUserById c i st))) \<Longrightarrow> \<not> hasProperty v ''password''"
  by (auto simp: getUserById_def split: option.splits if_splits dest: findById_view)

lemma listUsers_views:
  "v \<in> set (userViews (resBody (listUsers c q st))) \<Longrightarrow> \<not> hasProperty v ''password''"
  using set_slice_subset findAll_views
  by (fastforce simp: listUsers_def Let_def split: if_splits)

lemma finishUpdate_views:
  "v \<in> set (userViews (resBody (fst (finishUpdate e i d st)))) \<Longrightarrow>
   \<not> hasProperty v ''password''"
  by (auto simp: finishUpdate_def split: option.splits prod.splits dest: updateById_view)

lemma updateUser_views:
  "v \<in> set (userViews (resBody (fst (updateUser e c i b st)))) \<Longrightarrow>
   \<not> hasProperty v ''password''"
  by (auto simp: updateUser_def Let_def split: option.splits if_splits
      dest: finishUpdate_views)

text \<open>
  Claim C1. Whatever the request and the store, every user object in the response of
  register, login, get-profile, get-user-by-id, list-users and update-user lacks the
  property \<open>password\<close>.
\<close>

theorem responses_never_carry_password:
  "(\<forall>v \<in> set (userViews (resBody (fst (register e b st)))). \<not> hasProperty v ''password'') \<and>
   (\<forall>v \<in> set (userViews (resBody (login e b st))). \<not> hasProperty v ''password'') \<and>
   (\<forall>v \<in> set (userViews (resBody (me c st))). \<not> hasProperty v ''password'') \<and>
   (\<forall>v \<in> set (userViews (resBody (getUserById c i st))). \<not> hasProperty v ''password'') \<and>
   (\<forall>v \<in> set (userViews (resBody (listUsers c q st))). \<not> hasProperty v ''password'') \<and>
   (\<forall>v \<in> set (userViews (resBody (fst (updateUser e c i b' st)))).
      \<not> hasProperty v ''password'')"
  by (intro conjI ballI)
    (erule register_views login_views me_views getUserById_views listUsers_views
       updateUser_views)+

theorem responses_never_carry_password_witness:
  "userViews (resBody (fst (register exampleEnv aliceBody (initialStore ''t0'')))) = [aliceView] \<and>
   \<not> hasProperty aliceView ''password'' \<and>
   hasProperty aliceRecord ''password''"
proof -
  have views: "userViews (resBody (fst (register exampleEnv aliceBody (initialStore ''t0'')))) =
      [aliceView]"
    by (simp add: register_alice)
  have "\<forall>v \<in> set (userViews (resBody (fst (register exampleEnv aliceBody (initialStore ''t0''))))).
      \<not> hasProperty v ''password''"
    using responses_never_carry_password [of exampleEnv aliceBody "initialStore ''t0''"]
    by (rule conjunct1)
  then have "\<not> hasProperty aliceView ''password''"
    unfolding views by simp
  moreover have "hasProperty aliceRecord ''password''"
    by (simp add: hasProperty_def aliceRecord_def)
  ultimately show ?thesis using views by simp
qed

section \<open>Login does not tell whether an account exists\<close>

text \<open>
  Claim C3. In every store, a login whose email matches no record and a login whose
  email matches a record but whose password the comparison rejects get the same
  response: status 401 with the same \<open>error\<close> and \<open>message\<close>.
\<close>

theorem login_failures_indistinguishable:
  assumes "findByEmail st (getp body1 ''email'') = None"
    and "findByEmail st (getp body2 ''email'') = Some u"
    and "bcryptCompare e2 (getp body2 ''password'') (getp u ''password'') = Some False"
  shows "login e1 body1 st = login e2 body2 st \<and>
         login e1 body1 st =
           Response 401 (ErrorBody ''Invalid credentials'' ''Invalid email or password'')"
  using assms by (simp add: login_def)

theorem login_failures_indistinguishable_witness:
  "findByEmail twoUsers (getp [(''email'', JStr ''nobody@x.com''), (''password'', JStr ''Secret123'')] ''email'') = None \<and>
   findByEmail twoUsers (getp [(''email'', JStr ''alice@x.com''), (''password'', JStr ''Wrong'')] ''email'') = Some aliceRecord \<and>
   bcryptCompare exampleEnv
     (getp [(''email'', JStr ''alice@x.com''), (''password'', JStr ''Wrong'')] ''password'')
     (getp aliceRecord ''password'') = Some False \<and>
   login exampleEnv [(''email'', JStr ''nobody@x.com''), (''password'', JStr ''Secret123'')] twoUsers =
     login exampleEnv [(''email'', JStr ''alice@x.com''), (''password'', JStr ''Wrong'')] twoUsers \<and>
   login exampleEnv [(''email'', JStr ''nobody@x.com''), (''password'', JStr ''Secret123'')] twoUsers =
     Response 401 (ErrorBody ''Invalid credentials'' ''Invalid email or password'')"
proof -
  have h1: "findByEmail twoUsers (getp [(''email'', JStr ''nobody@x.com''), (''password'', JStr ''Secret123'')] ''email'') = None"
    by (simp add: findByEmail_def twoUsers_def adminRecord_def aliceRecord_def getp_def)
  have h2: "findByEmail twoUsers (getp [(''email'', JStr ''alice@x.com''), (''password'', JStr ''Wrong'')] ''email'') = Some aliceRecord"
    by (simp add: findByEmail_def twoUsers_def adminRecord_def aliceRecord_def getp_def)
  have h3: "bcryptCompare exampleEnv
     (getp [(''email'', JStr ''alice@x.com''), (''password'', JStr ''Wrong'')] ''password'')
     (getp aliceRecord ''password'') = Some False"
    by (simp add: exampleEnv_def aliceRecord_def getp_def)
  from login_failures_indistinguishable [OF h1 h2 h3, of exampleEnv] h1 h2 h3
  show ?thesis by blast
qed

section \<open>Updates by strangers\<close>

text \<open>
  Claim C7. When the requester is neither an administrator nor the owner of the
  target id, the update handler answers 403 Forbidden whatever the body holds, and the
  store it returns is the store it was given.
\<close>

theorem updateUser_forbidden_unchanged:
  assumes "role user \<noteq> ''admin''" and "parseInt (JStr ident) \<noteq> Some (userId user)"
  shows "updateUser e user ident body st =
           (Response 403 (ErrorBody ''Forbidden'' ''You can only update your own profile''),
            st)"
  using assms by (auto simp add: updateUser_def)

theorem updateUser_forbidden_unchanged_witness:
  "role aliceClaims \<noteq> ''admin'' \<and>
   parseInt (JStr ''1'') \<noteq> Some (userId aliceClaims) \<and>
   updateUser exampleEnv aliceClaims ''1'' [(''username'', JStr ''root''), (''role'', JStr ''admin'')] twoUsers =
     (Response 403 (ErrorBody ''Forbidden'' ''You can only update your own profile''), twoUsers)"
proof -
  have h1: "role aliceClaims \<noteq> ''admin''"
    by (simp add: aliceClaims_def)
  have h2: "parseInt (JStr ''1'') \<noteq> Some (userId aliceClaims)"
    by (simp add: parseInt_1 aliceClaims_def)
  from updateUser_forbidden_unchanged [OF h1 h2] h1 h2 show ?thesis by blast
qed

section \<open>Token errors at the error handler\<close>

text \<open>
  Claim C9. An error named \<open>TokenExpiredError\<close> is answered with status 401 and the
  message \<open>Token expired\<close>, one named \<open>JsonWebTokenError\<close> with status 401 and the message
  \<open>Invalid token\<close>; the errors of token verification carry no \<open>statusCode\<close> of
  their own.
\<close>

theorem errorHandler_token_errors:
  assumes "\<not> customStatus err"
  shows "(errName err = ''TokenExpiredError'' \<longrightarrow>
            errorHandler dev err =
              Some (401, ErrorJson ''Token expired''
                           (if dev then Some (errStack err) else None) None)) \<and>
         (errName err = ''JsonWebTokenError'' \<longrightarrow>
            errorHandler dev err =
              Some (401, ErrorJson ''Invalid token''
                           (if dev then Some (errStack err) else None) None))"
  using assms by (simp add: errorHandler_def)

theorem errorHandler_token_errors_witness:
  "\<not> customStatus \<lparr>errName = ''TokenExpiredError'', errMessage = ''jwt expired'',
        errStatusCode = None, errErrors = None, errStack = ''at verify''\<rparr> \<and>
   errorHandler False \<lparr>errName = ''TokenExpiredError'', errMessage = ''jwt expired'',
        errStatusCode = None, errErrors = None, errStack = ''at verify''\<rparr> =
     Some (401, ErrorJson ''Token expired'' None None) \<and>
   \<not> customStatus \<lparr>errName = ''JsonWebTokenError'', errMessage = ''invalid signature'',
        errStatusCode = None, errErrors = None, errStack = ''at verify''\<rparr> \<and>
   errorHandler False \<lparr>errName = ''JsonWebTokenError'', errMessage = ''invalid signature'',
        errStatusCode = None, errErrors = None, errStack = ''at verify''\<rparr> =
     Some (401, ErrorJson ''Invalid token'' None None)"
proof -
  have h1: "\<not> customStatus \<lparr>errName = ''TokenExpiredError'', errMessage = ''jwt expired'',
        errStatusCode = None, errErrors = None, errStack = ''at verify''\<rparr>"
    by (simp add: customStatus_def)
  have h2: "\<not> customStatus \<lparr>errName = ''JsonWebTokenError'', errMessage = ''invalid signature'',
        errStatusCode = None, errErrors = None, errStack = ''at verify''\<rparr>"
    by (simp add: customStatus_def)
  from errorHandler_token_errors [OF h1, of False] errorHandler_token_errors [OF h2, of False]
    h1 h2
  show ?thesis by simp
qed

section \<open>Reading one user\<close>

text \<open>
  Claim C5. \<open>GET /:id\<close> answers 403 Forbidden unless the requester is an
  administrator or the id of the path parses to the requester's own id, so a 200 is
  only ever given to those; an authorised request for an id that no record has gets
  404, and otherwise 200 with a record of that id, its password removed.
\<close>

theorem getUserById_access:
  "(role user \<noteq> ''admin'' \<and> parseInt (JStr ident) \<noteq> Some (userId user) \<longrightarrow>
      getUserById user ident st =
        Response 403 (ErrorBody ''Forbidden'' ''You can only access your own profile'')) \<and>
   (status (getUserById user ident st) = 200 \<longrightarrow>
      role user = ''admin'' \<or> parseInt (JStr ident) = Some (userId user)) \<and>
   ((role user = ''admin'' \<or> parseInt (JStr ident) = Some (userId user)) \<and>
    (\<forall>u \<in> set (users st). \<not> idIs (parseInt (JStr ident)) u) \<longrightarrow>
      getUserById user ident st =
        Response 404
          (ErrorBody ''User not found'' ''User with the specified ID does not exist'')) \<and>
   ((role user = ''admin'' \<or> parseInt (JStr ident) = Some (userId user)) \<and>
    (\<exists>u \<in> set (users st). idIs (parseInt (JStr ident)) u) \<longrightarrow>
      (\<exists>u \<in> set (users st). idIs (parseInt (JStr ident)) u \<and>
         getUserById user ident st = Response 200 (UserBody (withoutPassword u))))"
proof (intro conjI impI)
  assume "role user \<noteq> ''admin'' \<and> parseInt (JStr ident) \<noteq> Some (userId user)"
  then show "getUserById user ident st =
        Response 403 (ErrorBody ''Forbidden'' ''You can only access your own profile'')"
    by (auto simp: getUserById_def)
next
  assume "status (getUserById user ident st) = 200"
  then show "role user = ''admin'' \<or> parseInt (JStr ident) = Some (userId user)"
    by (auto simp: getUserById_def split: if_splits)
next
  assume a: "(role user = ''admin'' \<or> parseInt (JStr ident) = Some (userId user)) \<and>
    (\<forall>u \<in> set (users st). \<not> idIs (parseInt (JStr ident)) u)"
  then have "find (idIs (parseInt (JStr ident))) (users st) = None"
    by (simp add: find_None_iff)
  with a show "getUserById user ident st =
        Response 404
          (ErrorBody ''User not found'' ''User with the specified ID does not exist'')"
    by (auto simp: getUserById_def findById_def)
next
  assume a: "(role user = ''admin'' \<or> parseInt (JStr ident) = Some (userId user)) \<and>
    (\<exists>u \<in> set (users st). idIs (parseInt (JStr ident)) u)"
  then obtain u where u: "find (idIs (parseInt (JStr ident))) (users st) = Some u"
    by (cases "find (idIs (parseInt (JStr ident))) (users st)") (auto simp: find_None_iff)
  then have "u \<in> set (users st)" "idIs (parseInt (JStr ident)) u"
    by (auto simp: find_Some_iff)
  moreover from a u have "getUserById user ident st = Response 200 (UserBody (withoutPassword u))"
    by (auto simp: getUserById_def findById_def)
  ultimately show "\<exists>u \<in> set (users st). idIs (parseInt (JStr ident)) u \<and>
         getUserById user ident st = Response 200 (UserBody (withoutPassword u))"
    by blast
qed

theorem getUserById_access_witness:
  "getUserById aliceClaims ''1'' twoUsers =
     Response 403 (ErrorBody ''Forbidden'' ''You can only access your own profile'') \<and>
   getUserById adminClaims ''7'' twoUsers =
     Response 404 (ErrorBody ''User not found'' ''User with the specified ID does not exist'') \<and>
   getUserById aliceClaims ''2'' twoUsers = Response 200 (UserBody aliceView) \<and>
   getUserById adminClaims ''1'' twoUsers = Response 200 (UserBody adminView)"
proof -
  have p7: "parseInt (JStr ''7'') = Some 7"
    by (simp add: parseInt_eval)
  from getUserById_access [of aliceClaims "''1''" twoUsers]
  have a: "getUserById aliceClaims ''1'' twoUsers =
     Response 403 (ErrorBody ''Forbidden'' ''You can only access your own profile'')"
    by (simp add: aliceClaims_def parseInt_1)
  from getUserById_access [of adminClaims "''7''" twoUsers]
  have b: "getUserById adminClaims ''7'' twoUsers =
     Response 404 (ErrorBody ''User not found'' ''User with the specified ID does not exist'')"
    by (simp add: example_eval p7)
  from getUserById_access [of aliceClaims "''2''" twoUsers]
  have c: "getUserById aliceClaims ''2'' twoUsers = Response 200 (UserBody aliceView)"
    by (simp add: example_eval parseInt_2)
  from getUserById_access [of adminClaims "''1''" twoUsers]
  have d: "getUserById adminClaims ''1'' twoUsers = Response 200 (UserBody adminView)"
    by (simp add: example_eval parseInt_1)
  from a b c d show ?thesis by simp
qed

section \<open>Deleting a user\<close>

text \<open>
  Claim C6. \<open>DELETE /:id\<close> answers 403 to whoever is not an administrator; 400 to an
  administrator whose own id the path names, leaving the store as it was; 404 to an
  administrator naming an id that no record has; and otherwise removes the first
  record with that id, and nothing else.
\<close>

theorem deleteUser_cases:
  "(role user \<noteq> ''admin'' \<longrightarrow>
      deleteUser user ident st =
        (Response 403 (ErrorBody ''Forbidden'' ''Admin access required to delete users''), st)) \<and>
   (role user = ''admin'' \<and> parseInt (JStr ident) = Some (userId user) \<longrightarrow>
      deleteUser user ident st =
        (Response 400 (ErrorBody ''Invalid operation'' ''You cannot delete your own account''),
         st)) \<and>
   (role user = ''admin'' \<and> parseInt (JStr ident) \<noteq> Some (userId user) \<and>
    (\<forall>u \<in> set (users st). \<not> idIs (parseInt (JStr ident)) u) \<longrightarrow>
      deleteUser user ident st =
        (Response 404
           (ErrorBody ''User not found'' ''User with the specified ID does not exist''), st)) \<and>
   (role user = ''admin'' \<and> parseInt (JStr ident) \<noteq> Some (userId user) \<and>
    (\<exists>u \<in> set (users st). idIs (parseInt (JStr ident)) u) \<longrightarrow>
      (\<exists>before u after.
         users st = before @ u # after \<and>
         idIs (parseInt (JStr ident)) u \<and>
         (\<forall>v \<in> set before. \<not> idIs (parseInt (JStr ident)) v) \<and>
         deleteUser user ident st =
           (Response 200 (MessageBody ''User deleted successfully''),
            st\<lparr>users := before @ after\<rparr>)))"
proof (intro conjI impI)
  assume "role user \<noteq> ''admin''"
  then show "deleteUser user ident st =
        (Response 403 (ErrorBody ''Forbidden'' ''Admin access required to delete users''), st)"
    by (simp add: deleteUser_def)
next
  assume "role user = ''admin'' \<and> parseInt (JStr ident) = Some (userId user)"
  then show "deleteUser user ident st =
        (Response 400 (ErrorBody ''Invalid operation'' ''You cannot delete your own account''),
         st)"
    by (simp add: deleteUser_def)
next
  assume a: "role user = ''admin'' \<and> parseInt (JStr ident) \<noteq> Some (userId user) \<and>
    (\<forall>u \<in> set (users st). \<not> idIs (parseInt (JStr ident)) u)"
  then have "findIndex (idIs (parseInt (JStr ident))) (users st) = None"
    by (simp add: findIndex_None_iff)
  with a show "deleteUser user ident st =
        (Response 404
           (ErrorBody ''User not found'' ''User with the specified ID does not exist''), st)"
    by (auto simp: deleteUser_def deleteById_def)
next
  assume a: "role user = ''admin'' \<and> parseInt (JStr ident) \<noteq> Some (userId user) \<and>
    (\<exists>u \<in> set (users st). idIs (parseInt (JStr ident)) u)"
  then obtain i where i: "findIndex (idIs (parseInt (JStr ident))) (users st) = Some i"
    by (cases "findIndex (idIs (parseInt (JStr ident))) (users st)")
      (auto simp: findIndex_None_iff)
  from a i have "deleteUser user ident st =
      (Response 200 (MessageBody ''User deleted successfully''),
       st\<lparr>users := take i (users st) @ drop (Suc i) (users st)\<rparr>)"
    by (auto simp: deleteUser_def deleteById_def)
  with findIndex_split [OF i]
  show "\<exists>before u after.
         users st = before @ u # after \<and>
         idIs (parseInt (JStr ident)) u \<and>
         (\<forall>v \<in> set before. \<not> idIs (parseInt (JStr ident)) v) \<and>
         deleteUser user ident st =
           (Response 200 (MessageBody ''User deleted successfully''),
            st\<lparr>users := before @ after\<rparr>)"
    by blast
qed

theorem deleteUser_cases_witness:
  "deleteUser aliceClaims ''1'' twoUsers =
     (Response 403 (ErrorBody ''Forbidden'' ''Admin access required to delete users''),
      twoUsers) \<and>
   deleteUser adminClaims ''1'' twoUsers =
     (Response 400 (ErrorBody ''Invalid operation'' ''You cannot delete your own account''),
      twoUsers) \<and>
   deleteUser adminClaims ''7'' twoUsers =
     (Response 404 (ErrorBody ''User not found'' ''User with the specified ID does not exist''),
      twoUsers) \<and>
   deleteUser adminClaims ''2'' twoUsers =
     (Response 200 (MessageBody ''User deleted successfully''),
      \<lparr>users = [adminRecord ''t0''], nextUserId = 3\<rparr>)"
proof -
  have p7: "parseInt (JStr ''7'') = Some 7"
    by (simp add: parseInt_eval)
  from deleteUser_cases [of aliceClaims "''1''" twoUsers]
  have a: "deleteUser aliceClaims ''1'' twoUsers =
     (Response 403 (ErrorBody ''Forbidden'' ''Admin access required to delete users''),
      twoUsers)"
    by (simp add: aliceClaims_def)
  from deleteUser_cases [of adminClaims "''1''" twoUsers]
  have b: "deleteUser adminClaims ''1'' twoUsers =
     (Response 400 (ErrorBody ''Invalid operation'' ''You cannot delete your own account''),
      twoUsers)"
    by (simp add: adminClaims_def parseInt_1)
  from deleteUser_cases [of adminClaims "''7''" twoUsers]
  have c: "deleteUser adminClaims ''7'' twoUsers =
     (Response 404 (ErrorBody ''User not found'' ''User with the specified ID does not exist''),
      twoUsers)"
    by (simp add: example_eval p7)
  from deleteUser_cases [of adminClaims "''2''" twoUsers]
  obtain before u after where
    split: "users twoUsers = before @ u # after"
    and u: "idIs (parseInt (JStr ''2'')) u"
    and before: "\<forall>v \<in> set before. \<not> idIs (parseInt (JStr ''2'')) v"
    and res: "deleteUser adminClaims ''2'' twoUsers =
           (Response 200 (MessageBody ''User deleted successfully''),
            twoUsers\<lparr>users := before @ after\<rparr>)"
    by (auto simp add: example_eval parseInt_2)
  from split u have "before = [adminRecord ''t0''] \<and> after = []"
    by (auto simp: example_eval parseInt_2 Cons_eq_append_conv)
  with res have d: "deleteUser adminClaims ''2'' twoUsers =
     (Response 200 (MessageBody ''User deleted successfully''),
      \<lparr>users = [adminRecord ''t0''], nextUserId = 3\<rparr>)"
    by (simp add: twoUsers_def)
  from a b c d show ?thesis by simp
qed

section \<open>An update never touches role or id\<close>

lemma updateById_frame:
  assumes "k \<notin> fst ` set d" and "k \<noteq> ''updatedAt''"
  shows "map (\<lambda>u. getp u k) (users (snd (updateById t i d st))) = map (\<lambda>u. getp u k) (users st)"
proof (cases "findIndex (idIs (parseInt i)) (users st)")
  case None
  then show ?thesis by (simp add: updateById_def)
next
  case (Some n)
  from findIndex_Some [OF Some] have n: "n < length (users st)" by simp
  from assms have same:
    "getp (AList.update ''updatedAt'' (JStr t) (spread (users st ! n) d)) k = getp (users st ! n) k"
    by (simp add: getp_update getp_spread)
  have "map (\<lambda>u. getp u k)
          ((users st)[n := AList.update ''updatedAt'' (JStr t) (spread (users st ! n) d)]) =
        (map (\<lambda>u. getp u k) (users st))[n := map (\<lambda>u. getp u k) (users st) ! n]"
    using n by (simp add: map_update same)
  also have "\<dots> = map (\<lambda>u. getp u k) (users st)"
    by (rule list_update_id)
  finally show ?thesis using Some by (simp add: updateById_def Let_def)
qed

lemma finishUpdate_frame:
  assumes "k \<notin> fst ` set d" and "k \<noteq> ''updatedAt''"
  shows "map (\<lambda>u. getp u k) (users (snd (finishUpdate e i d st))) = map (\<lambda>u. getp u k) (users st)"
proof -
  have "snd (finishUpdate e i d st) = snd (updateById (now e) (JStr i) d st)"
    by (simp add: finishUpdate_def split: prod.splits option.splits)
  with updateById_frame [OF assms] show ?thesis by simp
qed

lemma updateById_counter: "nextUserId (snd (updateById t i d st)) = nextUserId st"
  by (simp add: updateById_def Let_def split: option.splits)

lemma finishUpdate_counter: "nextUserId (snd (finishUpdate e i d st)) = nextUserId st"
proof -
  have "snd (finishUpdate e i d st) = snd (updateById (now e) (JStr i) d st)"
    by (simp add: finishUpdate_def split: prod.splits option.splits)
  then show ?thesis by (simp add: updateById_counter)
qed

lemma updateUser_frame:
  assumes "k \<notin> {''username'', ''email'', ''password'', ''updatedAt''}"
  shows "map (\<lambda>u. getp u k) (users (snd (updateUser e c i b st))) = map (\<lambda>u. getp u k) (users st)"
  using assms
  by (simp add: updateUser_def Let_def finishUpdate_frame dom_update split: option.splits)

text \<open>
  Claim C10. Whatever the requester, the path and the body, the update handler leaves
  the \<open>id\<close> and the \<open>role\<close> of every stored record, and the id counter, as they
  were.
\<close>

theorem updateUser_keeps_role_and_id:
  "map (\<lambda>u. getp u ''id'') (users (snd (updateUser e user ident body st))) =
     map (\<lambda>u. getp u ''id'') (users st) \<and>
   map (\<lambda>u. getp u ''role'') (users (snd (updateUser e user ident body st))) =
     map (\<lambda>u. getp u ''role'') (users st) \<and>
   nextUserId (snd (updateUser e user ident body st)) = nextUserId st"
proof -
  have "nextUserId (snd (updateUser e user ident body st)) = nextUserId st"
    by (simp add: updateUser_def Let_def finishUpdate_counter split: option.splits)
  then show ?thesis by (simp add: updateUser_frame)
qed

theorem updateUser_keeps_role_and_id_witness:
  "map (\<lambda>u. getp u ''role'')
     (users (snd (updateUser exampleEnv aliceClaims ''2''
        [(''username'', JStr ''mallory''), (''role'', JStr ''admin''), (''id'', JNum 1)]
        twoUsers))) = [JStr ''admin'', JStr ''user''] \<and>
   map (\<lambda>u. getp u ''id'')
     (users (snd (updateUser exampleEnv aliceClaims ''2''
        [(''username'', JStr ''mallory''), (''role'', JStr ''admin''), (''id'', JNum 1)]
        twoUsers))) = [JNum 1, JNum 2] \<and>
   map (\<lambda>u. getp u ''username'')
     (users (snd (updateUser exampleEnv aliceClaims ''2''
        [(''username'', JStr ''mallory''), (''role'', JStr ''admin''), (''id'', JNum 1)]
        twoUsers))) = [JStr ''admin'', JStr ''mallory'']"
proof -
  from updateUser_keeps_role_and_id [of exampleEnv aliceClaims "''2''"
      "[(''username'', JStr ''mallory''), (''role'', JStr ''admin''), (''id'', JNum 1)]" twoUsers]
  have "map (\<lambda>u. getp u ''role'')
     (users (snd (updateUser exampleEnv aliceClaims ''2''
        [(''username'', JStr ''mallory''), (''role'', JStr ''admin''), (''id'', JNum 1)]
        twoUsers))) = [JStr ''admin'', JStr ''user'']"
    and "map (\<lambda>u. getp u ''id'')
     (users (snd (updateUser exampleEnv aliceClaims ''2''
        [(''username'', JStr ''mallory''), (''role'', JStr ''admin''), (''id'', JNum 1)]
        twoUsers))) = [JNum 1, JNum 2]"
    by (simp_all add: example_eval)
  moreover have "map (\<lambda>u. getp u ''username'')
     (users (snd (updateUser exampleEnv aliceClaims ''2''
        [(''username'', JStr ''mallory''), (''role'', JStr ''admin''), (''id'', JNum 1)]
        twoUsers))) = [JStr ''admin'', JStr ''mallory'']"
    by (simp add: updateUser_def Let_def example_eval parseInt_2 takenByOther_def
        findByUsername_def finishUpdate_def updateById_def exampleEnv_def spread_def)
  ultimately show ?thesis by simp
qed

section \<open>The statistics route\<close>

text \<open>
  No request reaches the handler of \<open>/stats\<close>: \<open>GET /:id\<close> is registered before it and
  matches every path of one segment.
\<close>

lemma stats_route_unreachable: "firstMatch usersRoutes v path \<noteq> Some (HGetStats, ident)"
proof (cases path)
  case Nil
  then show ?thesis by (cases v) (simp_all add: usersRoutes_def)
next
  case (Cons s rest)
  show ?thesis
  proof (cases rest)
    case Nil
    with Cons show ?thesis
      by (cases v; cases "s = []") (simp_all add: usersRoutes_def)
  next
    case (Cons s' rest')
    with \<open>path = s # rest\<close> show ?thesis
      by (cases v) (simp_all add: usersRoutes_def)
  qed
qed

text \<open>
  Claim C2. With the seeded administrator and one registered user in the store, the
  statistics handler itself would answer an administrator 200 with the counts 2, 1
  and 1; but the router hands \<open>GET /stats\<close> with an administrator's token to the
  handler of \<open>/:id\<close>, which answers 404.
\<close>

theorem stats_route_shadowed:
  "usersRouter exampleEnv
     \<lparr>reqVerb = GET, reqPath = [''stats''], reqUser = adminClaims, reqQuery = [], reqBody = []\<rparr>
     twoUsers =
   Some (Response 404
          (ErrorBody ''User not found'' ''User with the specified ID does not exist''),
         twoUsers) \<and>
   getStats adminClaims twoUsers = Response 200 (StatsBody 2 1 1)"
  by (simp add: usersRouter_def usersRoutes_def getUserById_def adminClaims_def findById_def
      parseInt_eval twoUsers_def idIs_def getStats_def getUserStats_def adminRecord_def
      aliceRecord_def getp_def)

section \<open>Listing users by page\<close>

lemma filter_interval_upt:
  "filter (\<lambda>i. a \<le> i \<and> i < b) [0 ..< n] = [min a n ..< min b n]"
  by (induction n) (auto simp: min_def le_Suc_eq)

lemma map_nth_upt_take_drop:
  assumes "b \<le> length xs"
  shows "map (\<lambda>i. xs ! i) [a ..< b] = take (b - a) (drop a xs)"
  using assms by (auto simp: list_eq_iff_nth_eq)

lemma specPage_take_drop:
  assumes "0 \<le> (page - 1) * pageSize" and "0 \<le> pageSize"
  shows "specPage xs page pageSize =
           take (nat pageSize) (drop (nat ((page - 1) * pageSize)) xs)"
proof -
  define skip where "skip = (page - 1) * pageSize"
  define a where "a = nat skip"
  define b where "b = nat (skip + pageSize)"
  have pred: "(skip \<le> int i \<and> int i < skip + pageSize) = (a \<le> i \<and> i < b)" for i
    using assms by (auto simp: a_def b_def skip_def)
  have "specPage xs page pageSize =
          map (\<lambda>i. xs ! i) (filter (\<lambda>i. a \<le> i \<and> i < b) [0 ..< length xs])"
    by (simp add: specPage_def skip_def [symmetric] pred)
  also have "\<dots> = map (\<lambda>i. xs ! i) [min a (length xs) ..< min b (length xs)]"
    by (simp add: filter_interval_upt)
  also have "\<dots> = take (min b (length xs) - min a (length xs)) (drop (min a (length xs)) xs)"
    by (rule map_nth_upt_take_drop) simp
  also have "\<dots> = take (nat pageSize) (drop a xs)"
  proof (cases "a \<le> length xs")
    case True
    have "b - a = nat pageSize"
      using assms by (simp add: a_def b_def skip_def nat_add_distrib)
    with True show ?thesis
      by (cases "b \<le> length xs") (simp_all add: min_def)
  next
    case False
    then show ?thesis by (simp add: min_def)
  qed
  finally show ?thesis by (simp add: a_def skip_def)
qed

lemma slice_take_drop:
  assumes "0 \<le> start" and "start \<le> fin"
  shows "slice xs start fin = take (nat (fin - start)) (drop (nat start) xs)"
proof (cases "start \<le> int (length xs)")
  case True
  with assms show ?thesis
    by (cases "fin \<le> int (length xs)")
      (simp_all add: slice_def relativeIndex_def Let_def min_def nat_diff_distrib)
next
  case False
  with assms show ?thesis
    by (simp add: slice_def relativeIndex_def Let_def min_def)
qed

lemma slice_specPage:
  assumes "1 \<le> page" and "1 \<le> pageSize"
  shows "slice xs ((page - 1) * pageSize) (page * pageSize) = specPage xs page pageSize"
proof -
  have skip: "0 \<le> (page - 1) * pageSize"
    using assms by simp
  have fin: "page * pageSize = (page - 1) * pageSize + pageSize"
    by (simp add: algebra_simps)
  have "slice xs ((page - 1) * pageSize) (page * pageSize) =
          take (nat pageSize) (drop (nat ((page - 1) * pageSize)) xs)"
    using assms skip by (simp add: slice_take_drop fin)
  with specPage_take_drop [OF skip, of xs] assms show ?thesis by simp
qed

lemma findAll_twoUsers: "findAll twoUsers = [adminView, aliceView]"
  by (simp add: findAll_def example_eval)

lemma specPage_example: "specPage [a, b] (- 1) 1 = []"
  by (simp add: specPage_def upt_rec)

lemma slice_example: "slice [a, b] (- 2) (- 1) = [a]"
  by (simp add: slice_def relativeIndex_def)

text \<open>
  Claim C8, as the code has it. \<open>page\<close> and \<open>limit\<close> are the query parameters after
  \<open>parseInt\<close>, with 1 and 10 in place of an absent, unreadable or zero value. Whoever is
  not an administrator gets 403. For an administrator and \<open>page\<close> and \<open>limit\<close> of at
  least 1 the answer is 200 with the page of the specification, which is \<open>limit\<close>
  views from index \<open>(page - 1) * limit\<close> on, and with the number of all users; a page
  beyond the last one is empty.
\<close>

theorem listUsers_pages:
  assumes "page = orDefault (parseInt (getp query ''page'')) 1"
    and "limit = orDefault (parseInt (getp query ''limit'')) 10"
  shows
    "(role user \<noteq> ''admin'' \<longrightarrow>
        listUsers user query st = Response 403 (ErrorBody ''Forbidden'' ''Admin access required'')) \<and>
     (role user = ''admin'' \<and> 1 \<le> page \<and> 1 \<le> limit \<longrightarrow>
        listUsers user query st =
          Response 200
            (UsersBody (specPage (findAll st) page limit) page limit
               (int (length (users st))) (ceilDiv (int (length (users st))) limit)) \<and>
        specPage (findAll st) page limit =
          take (nat limit) (drop (nat ((page - 1) * limit)) (map withoutPassword (users st))) \<and>
        (int (length (users st)) \<le> (page - 1) * limit \<longrightarrow>
           specPage (findAll st) page limit = []))"
proof (intro conjI impI)
  assume "role user \<noteq> ''admin''"
  then show "listUsers user query st =
      Response 403 (ErrorBody ''Forbidden'' ''Admin access required'')"
    by (simp add: listUsers_def)
next
  assume a: "role user = ''admin'' \<and> 1 \<le> page \<and> 1 \<le> limit"
  then have "slice (findAll st) ((page - 1) * limit) (page * limit) =
      specPage (findAll st) page limit"
    by (simp add: slice_specPage)
  with a assms show "listUsers user query st =
          Response 200
            (UsersBody (specPage (findAll st) page limit) page limit
               (int (length (users st))) (ceilDiv (int (length (users st))) limit))"
    by (simp add: listUsers_def Let_def findAll_def)
next
  assume a: "role user = ''admin'' \<and> 1 \<le> page \<and> 1 \<le> limit"
  then have "0 \<le> (page - 1) * limit" "0 \<le> limit" by simp_all
  then show "specPage (findAll st) page limit =
          take (nat limit) (drop (nat ((page - 1) * limit)) (map withoutPassword (users st)))"
    by (simp add: specPage_take_drop findAll_def)
next
  assume a: "role user = ''admin'' \<and> 1 \<le> page \<and> 1 \<le> limit"
    and far: "int (length (users st)) \<le> (page - 1) * limit"
  from a have "0 \<le> (page - 1) * limit" "0 \<le> limit" by simp_all
  then have "specPage (findAll st) page limit =
          take (nat limit) (drop (nat ((page - 1) * limit)) (findAll st))"
    by (simp add: specPage_take_drop)
  moreover from far have "length (findAll st) \<le> nat ((page - 1) * limit)"
    by (simp add: findAll_def)
  ultimately show "specPage (findAll st) page limit = []" by simp
qed

theorem listUsers_pages_witness:
  "listUsers aliceClaims [] twoUsers =
     Response 403 (ErrorBody ''Forbidden'' ''Admin access required'') \<and>
   listUsers adminClaims [(''page'', JStr ''2''), (''limit'', JStr ''1'')] twoUsers =
     Response 200 (UsersBody [aliceView] 2 1 2 2) \<and>
   listUsers adminClaims [(''page'', JStr ''7''), (''limit'', JStr ''1'')] twoUsers =
     Response 200 (UsersBody [] 7 1 2 2)"
proof -
  have p7: "parseInt (JStr ''7'') = Some 7"
    by (simp add: parseInt_eval)
  have page0: "1 = orDefault (parseInt (getp [] ''page'')) 1"
    and limit0: "10 = orDefault (parseInt (getp [] ''limit'')) 10"
    by (simp_all add: getp_def parseInt_def orDefault_def)
  have page2: "2 = orDefault (parseInt (getp [(''page'', JStr ''2''), (''limit'', JStr ''1'')] ''page'')) 1"
    and limit2: "1 = orDefault (parseInt (getp [(''page'', JStr ''2''), (''limit'', JStr ''1'')] ''limit'')) 10"
    by (simp_all add: getp_def parseInt_1 parseInt_2 orDefault_def)
  have page7: "7 = orDefault (parseInt (getp [(''page'', JStr ''7''), (''limit'', JStr ''1'')] ''page'')) 1"
    and limit7: "1 = orDefault (parseInt (getp [(''page'', JStr ''7''), (''limit'', JStr ''1'')] ''limit'')) 10"
    by (simp_all add: getp_def parseInt_1 p7 orDefault_def)
  have users: "map withoutPassword (users twoUsers) = [adminView, aliceView]"
    using findAll_twoUsers by (simp add: findAll_def)
  have len: "length (users twoUsers) = 2"
    by (simp add: twoUsers_def)
  from listUsers_pages [OF page0 limit0, of aliceClaims twoUsers]
  have a: "listUsers aliceClaims [] twoUsers =
     Response 403 (ErrorBody ''Forbidden'' ''Admin access required'')"
    by (simp add: aliceClaims_def)
  from listUsers_pages [OF page2 limit2, of adminClaims twoUsers]
  have b: "listUsers adminClaims [(''page'', JStr ''2''), (''limit'', JStr ''1'')] twoUsers =
     Response 200 (UsersBody [aliceView] 2 1 2 2)"
    by (simp add: adminClaims_def users len ceilDiv_def)
  from listUsers_pages [OF page7 limit7, of adminClaims twoUsers]
  have c: "listUsers adminClaims [(''page'', JStr ''7''), (''limit'', JStr ''1'')] twoUsers =
     Response 200 (UsersBody [] 7 1 2 2)"
    by (simp add: adminClaims_def users len ceilDiv_def)
  from a b c show ?thesis by simp
qed

text \<open>
  Claim C8 as stated fails for a negative page: \<open>slice\<close> counts a negative index from
  the end, so page \<open>-1\<close> of two users with \<open>limit = 1\<close> holds the first user, where
  the page of the specification is empty.
\<close>

theorem listUsers_negative_page_counterexample:
  "listUsers adminClaims [(''page'', JStr ''-1''), (''limit'', JStr ''1'')] twoUsers =
     Response 200 (UsersBody [adminView] (- 1) 1 2 2) \<and>
   specPage (findAll twoUsers) (- 1) 1 = []"
proof -
  have page: "orDefault (parseInt (getp [(''page'', JStr ''-1''), (''limit'', JStr ''1'')] ''page'')) 1 = - 1"
    by (simp add: getp_def parseInt_m1 orDefault_def)
  have limit: "orDefault (parseInt (getp [(''page'', JStr ''-1''), (''limit'', JStr ''1'')] ''limit'')) 10 = 1"
    by (simp add: getp_def parseInt_1 orDefault_def)
  have "listUsers adminClaims [(''page'', JStr ''-1''), (''limit'', JStr ''1'')] twoUsers =
     Response 200 (UsersBody [adminView] (- 1) 1 2 2)"
    unfolding listUsers_def Let_def page limit findAll_twoUsers
    by (simp add: adminClaims_def slice_example ceilDiv_def)
  then show ?thesis
    by (simp add: findAll_twoUsers specPage_example)
qed

section \<open>Uniqueness of email and user name\<close>

lemma create_registration:
  "create t [(''username'', u), (''email'', m), (''password'', JStr h)] st =
     ([(''id'', JNum (nextUserId st)), (''username'', u), (''email'', m),
       (''role'', JStr ''user''), (''createdAt'', JStr t)],
      st\<lparr>users := users st @
              [[(''id'', JNum (nextUserId st)), (''username'', u), (''email'', m),
                (''password'', JStr h), (''role'', JStr ''user''), (''createdAt'', JStr t)]],
         nextUserId := nextUserId st + 1\<rparr>)"
  by (simp add: create_def spread_def getp_def withoutPassword_def Let_def)

lemma register_conflict_email:
  assumes "findByEmail st (getp b ''email'') \<noteq> None"
  shows "register e b st =
           (Response 400 (ErrorBody ''User already exists''
              ''A user with this email already exists''), st)"
  using assms by (auto simp: register_def Let_def)

lemma register_conflict_username:
  assumes "findByEmail st (getp b ''email'') = None"
    and "findByUsername st (getp b ''username'') \<noteq> None"
  shows "register e b st =
           (Response 400 (ErrorBody ''User already exists''
              ''A user with this username already exists''), st)"
  using assms by (auto simp: register_def Let_def)

text \<open>What a registration does to the store: nothing, or one record appended.\<close>

lemma register_store:
  "snd (register e b st) = st \<or>
   (findByEmail st (getp b ''email'') = None \<and>
    findByUsername st (getp b ''username'') = None \<and>
    (\<exists>h. snd (register e b st) =
       st\<lparr>users := users st @
              [[(''id'', JNum (nextUserId st)), (''username'', getp b ''username''),
                (''email'', getp b ''email''), (''password'', JStr h),
                (''role'', JStr ''user''), (''createdAt'', JStr (now e))]],
          nextUserId := nextUserId st + 1\<rparr>))"
  by (auto simp: register_def Let_def create_registration split: option.splits)

lemma register_created:
  assumes "status (fst (register e b st)) = 201"
  shows "findByEmail st (getp b ''email'') = None \<and>
    (\<exists>h. snd (register e b st) =
       st\<lparr>users := users st @
              [[(''id'', JNum (nextUserId st)), (''username'', getp b ''username''),
                (''email'', getp b ''email''), (''password'', JStr h),
                (''role'', JStr ''user''), (''createdAt'', JStr (now e))]],
          nextUserId := nextUserId st + 1\<rparr>)"
  using assms
  by (auto simp: register_def Let_def create_registration split: option.splits)

lemma register_twice:
  assumes "status (fst (register e b st)) = 201"
    and "getp b2 ''email'' = getp b ''email''"
  shows "emailCount (snd (register e b st)) (getp b ''email'') = 1 \<and>
         register e2 b2 (snd (register e b st)) =
           (Response 400 (ErrorBody ''User already exists''
              ''A user with this email already exists''), snd (register e b st))"
proof -
  from register_created [OF assms(1)] obtain h where
    none: "findByEmail st (getp b ''email'') = None"
    and st': "snd (register e b st) =
       st\<lparr>users := users st @
              [[(''id'', JNum (nextUserId st)), (''username'', getp b ''username''),
                (''email'', getp b ''email''), (''password'', JStr h),
                (''role'', JStr ''user''), (''createdAt'', JStr (now e))]],
          nextUserId := nextUserId st + 1\<rparr>"
    by blast
  from none have no: "filter (\<lambda>u. getp u ''email'' = getp b ''email'') (users st) = []"
    by (auto simp: findByEmail_def find_None_iff filter_empty_conv)
  have count: "emailCount (snd (register e b st)) (getp b ''email'') = 1"
    by (simp add: st' emailCount_def no getp_Cons)
  let ?r = "[(''id'', JNum (nextUserId st)), (''username'', getp b ''username''),
                (''email'', getp b ''email''), (''password'', JStr h),
                (''role'', JStr ''user''), (''createdAt'', JStr (now e))]"
  have "?r \<in> set (users (snd (register e b st)))" and "getp ?r ''email'' = getp b2 ''email''"
    by (simp_all add: st' assms(2) getp_Cons)
  then have "findByEmail (snd (register e b st)) (getp b2 ''email'') \<noteq> None"
    unfolding findByEmail_def find_None_iff by blast
  from register_conflict_email [OF this] count show ?thesis by simp
qed

lemma finishUpdate_store:
  "snd (finishUpdate e i d st) = st \<or>
   (\<exists>n. findIndex (idIs (parseInt (JStr i))) (users st) = Some n \<and>
      snd (finishUpdate e i d st) =
        st\<lparr>users := (users st)
               [n := AList.update ''updatedAt'' (JStr (now e)) (spread (users st ! n) d)]\<rparr>)"
  by (simp add: finishUpdate_def updateById_def Let_def split: option.splits)

lemma updateUser_store:
  "snd (updateUser e c i b st) = st \<or>
   (\<exists>n new.
      findIndex (idIs (parseInt (JStr i))) (users st) = Some n \<and>
      snd (updateUser e c i b st) = st\<lparr>users := (users st)[n := new]\<rparr> \<and>
      getp new ''id'' = getp (users st ! n) ''id'' \<and>
      updatedFrom st i b ''username'' findByUsername (users st ! n) new \<and>
      updatedFrom st i b ''email'' findByEmail (users st ! n) new)"
proof -
  let ?P = "\<lambda>d. (''id'' \<notin> fst ` set d) \<and>
      (\<forall>old. updatedFrom st i b ''username'' findByUsername old
          (AList.update ''updatedAt'' (JStr (now e)) (spread old d))) \<and>
      (\<forall>old. updatedFrom st i b ''email'' findByEmail old
          (AList.update ''updatedAt'' (JStr (now e)) (spread old d)))"
  have fin: "snd (finishUpdate e i d st) = st \<or>
      (\<exists>n new.
        findIndex (idIs (parseInt (JStr i))) (users st) = Some n \<and>
        snd (finishUpdate e i d st) = st\<lparr>users := (users st)[n := new]\<rparr> \<and>
        getp new ''id'' = getp (users st ! n) ''id'' \<and>
        updatedFrom st i b ''username'' findByUsername (users st ! n) new \<and>
        updatedFrom st i b ''email'' findByEmail (users st ! n) new)" if d: "?P d" for d
  proof (cases "snd (finishUpdate e i d st) = st")
    case True
    then show ?thesis by simp
  next
    case False
    with finishUpdate_store [of e i d st] obtain n where
      n: "findIndex (idIs (parseInt (JStr i))) (users st) = Some n"
      and st': "snd (finishUpdate e i d st) =
        st\<lparr>users := (users st)
               [n := AList.update ''updatedAt'' (JStr (now e)) (spread (users st ! n) d)]\<rparr>"
      by blast
    let ?new = "AList.update ''updatedAt'' (JStr (now e)) (spread (users st ! n) d)"
    from d have "getp ?new ''id'' = getp (users st ! n) ''id''"
      by (simp add: getp_update getp_spread)
    moreover from d have "updatedFrom st i b ''username'' findByUsername (users st ! n) ?new"
      and "updatedFrom st i b ''email'' findByEmail (users st ! n) ?new"
      by blast+
    ultimately show ?thesis using n st' by blast
  qed
  let ?d1 = "if truthy (getp b ''username'')
      then AList.update ''username'' (getp b ''username'') [] else []"
  let ?d2 = "if truthy (getp b ''email'')
      then AList.update ''email'' (getp b ''email'') ?d1 else ?d1"
  let ?d3 = "\<lambda>h. if truthy (getp b ''password'')
      then AList.update ''password'' (JStr h) ?d2 else ?d2"
  have go: "snd (updateUser e c i b st) = st \<or>
      (snd (updateUser e c i b st) =
         snd (finishUpdate e i (?d3 (the (bcryptHash e (getp b ''password'')))) st) \<and>
        (truthy (getp b ''username'') \<longrightarrow>
           \<not> takenByOther (findByUsername st (getp b ''username'')) i) \<and>
        (truthy (getp b ''email'') \<longrightarrow>
           \<not> takenByOther (findByEmail st (getp b ''email'')) i))"
    by (simp add: updateUser_def Let_def split: option.splits)
  show ?thesis
  proof (cases "snd (updateUser e c i b st) = st")
    case True
    then show ?thesis by simp
  next
    case False
    define h where "h = the (bcryptHash e (getp b ''password''))"
    with False go have
      eq: "snd (updateUser e c i b st) = snd (finishUpdate e i (?d3 h) st)"
      and name: "truthy (getp b ''username'') \<longrightarrow>
           \<not> takenByOther (findByUsername st (getp b ''username'')) i"
      and email: "truthy (getp b ''email'') \<longrightarrow>
           \<not> takenByOther (findByEmail st (getp b ''email'')) i"
      by blast+
    from name email have "?P (?d3 h)"
      by (simp add: updatedFrom_def getp_update getp_spread getp_Cons)
    from fin [OF this] show ?thesis unfolding eq .
  qed
qed

lemma distinct_map_list_update:
  assumes "distinct (map f xs)" and "n < length xs"
    and "f y = f (xs ! n) \<or> f y \<notin> f ` set xs"
  shows "distinct (map f (xs[n := y]))"
proof -
  have upd: "map f (xs[n := y]) = (map f xs)[n := f y]"
    by (simp add: map_update)
  show ?thesis
  proof (cases "f y = f (xs ! n)")
    case True
    with assms(2) have "(map f xs)[n := f y] = map f xs"
      by (simp add: list_update_same_conv)
    with assms(1) upd show ?thesis by simp
  next
    case False
    with assms(3) have "f y \<notin> set (map f xs) - {map f xs ! n}" by simp
    from distinct_list_update [OF assms(1) this] upd show ?thesis by simp
  qed
qed

lemma distinct_map_find:
  assumes "distinct (map f xs)" and "w \<in> set xs"
  shows "find (\<lambda>u. f u = f w) xs = Some w"
  using assms by (induction xs) (auto simp: image_iff)

lemma same_id_same_record:
  assumes "distinct (map (\<lambda>u. getp u ''id'') xs)" and "u \<in> set xs" and "w \<in> set xs"
    and "idIs p u" and "idIs p w"
  shows "u = w"
proof -
  from assms(4,5) have "getp u ''id'' = getp w ''id''"
    by (auto simp: idIs_def split: option.splits)
  moreover from assms(1) have "inj_on (\<lambda>u. getp u ''id'') (set xs)"
    by (simp add: distinct_map)
  ultimately show ?thesis using assms(2,3) by (auto dest: inj_onD)
qed

lemma updated_field_distinct:
  assumes look: "\<And>v. lookup st v = find (\<lambda>u. getp u k = v) (users st)"
    and dk: "distinct (map (\<lambda>u. getp u k) (users st))"
    and ids: "distinct (map (\<lambda>u. getp u ''id'') (users st))"
    and n: "findIndex (idIs (parseInt (JStr i))) (users st) = Some n"
    and upd: "updatedFrom st i b k lookup (users st ! n) new"
  shows "distinct (map (\<lambda>u. getp u k) ((users st)[n := new]))"
proof -
  from findIndex_Some [OF n] have len: "n < length (users st)"
    and target: "idIs (parseInt (JStr i)) (users st ! n)" by simp_all
  have "getp new k = getp (users st ! n) k \<or> getp new k \<notin> (\<lambda>u. getp u k) ` set (users st)"
  proof (cases "getp new k = getp (users st ! n) k")
    case True
    then show ?thesis by simp
  next
    case False
    with upd have new: "getp new k = getp b k"
      and free: "\<not> takenByOther (lookup st (getp b k)) i"
      by (auto simp: updatedFrom_def)
    have "getp b k \<notin> (\<lambda>u. getp u k) ` set (users st)"
    proof
      assume "getp b k \<in> (\<lambda>u. getp u k) ` set (users st)"
      then obtain w where w: "w \<in> set (users st)" "getp w k = getp b k" by auto
      from distinct_map_find [OF dk w(1)] w(2)
      have "lookup st (getp b k) = Some w" by (simp add: look)
      with free have "idIs (parseInt (JStr i)) w"
        by (simp add: takenByOther_def)
      from same_id_same_record [OF ids w(1) _ this target] len
      have "w = users st ! n" by simp
      with w(2) new False show False by simp
    qed
    with new show ?thesis by simp
  qed
  with dk len show ?thesis by (rule distinct_map_list_update)
qed

lemma idBelow_mono: "idBelow n u \<Longrightarrow> n \<le> m \<Longrightarrow> idBelow m u"
  by (auto simp: idBelow_def split: jsval.splits)

lemma uniqueStore_initial: "uniqueStore (initialStore t0)"
  by (simp add: uniqueStore_def initialStore_def adminRecord_def idBelow_def getp_Cons)

lemma uniqueStore_register:
  assumes "uniqueStore st"
  shows "uniqueStore (snd (register e b st))"
proof (cases "snd (register e b st) = st")
  case True
  with assms show ?thesis by simp
next
  case False
  with register_store [of e b st] obtain h where
    email: "findByEmail st (getp b ''email'') = None"
    and name: "findByUsername st (getp b ''username'') = None"
    and st': "snd (register e b st) =
       st\<lparr>users := users st @
              [[(''id'', JNum (nextUserId st)), (''username'', getp b ''username''),
                (''email'', getp b ''email''), (''password'', JStr h),
                (''role'', JStr ''user''), (''createdAt'', JStr (now e))]],
          nextUserId := nextUserId st + 1\<rparr>"
    by blast
  from email have e: "getp b ''email'' \<notin> (\<lambda>u. getp u ''email'') ` set (users st)"
    by (auto simp: findByEmail_def find_None_iff)
  from name have u: "getp b ''username'' \<notin> (\<lambda>u. getp u ''username'') ` set (users st)"
    by (auto simp: findByUsername_def find_None_iff)
  from assms have below: "\<forall>u \<in> set (users st). idBelow (nextUserId st) u"
    by (simp add: uniqueStore_def list_all_iff)
  have fresh: "getp u ''id'' \<noteq> JNum (nextUserId st)" if "u \<in> set (users st)" for u
    using below that by (cases "getp u ''id''") (auto simp: idBelow_def)
  have i: "JNum (nextUserId st) \<notin> (\<lambda>u. getp u ''id'') ` set (users st)"
  proof
    assume "JNum (nextUserId st) \<in> (\<lambda>u. getp u ''id'') ` set (users st)"
    then obtain u where u: "u \<in> set (users st)" and "JNum (nextUserId st) = getp u ''id''"
      by (rule imageE)
    with fresh [OF u] show False by simp
  qed
  from below have "\<forall>u \<in> set (users st). idBelow (nextUserId st + 1) u"
    by (auto intro: idBelow_mono)
  with assms e u i show ?thesis
    by (simp add: st' uniqueStore_def getp_Cons idBelow_def list_all_iff)
qed

lemma uniqueStore_updateUser:
  assumes "uniqueStore st"
  shows "uniqueStore (snd (updateUser e c i b st))"
proof (cases "snd (updateUser e c i b st) = st")
  case True
  with assms show ?thesis by simp
next
  case False
  with updateUser_store [of e c i b st] obtain n new where
    n: "findIndex (idIs (parseInt (JStr i))) (users st) = Some n"
    and st': "snd (updateUser e c i b st) = st\<lparr>users := (users st)[n := new]\<rparr>"
    and id: "getp new ''id'' = getp (users st ! n) ''id''"
    and name: "updatedFrom st i b ''username'' findByUsername (users st ! n) new"
    and email: "updatedFrom st i b ''email'' findByEmail (users st ! n) new"
    by blast
  from findIndex_Some [OF n] have len: "n < length (users st)" by simp
  from assms have de: "distinct (map (\<lambda>u. getp u ''email'') (users st))"
    and du: "distinct (map (\<lambda>u. getp u ''username'') (users st))"
    and di: "distinct (map (\<lambda>u. getp u ''id'') (users st))"
    and below: "\<forall>u \<in> set (users st). idBelow (nextUserId st) u"
    by (simp_all add: uniqueStore_def list_all_iff)
  have 1: "distinct (map (\<lambda>u. getp u ''email'') ((users st)[n := new]))"
    by (rule updated_field_distinct [OF _ de di n email]) (simp add: findByEmail_def)
  have 2: "distinct (map (\<lambda>u. getp u ''username'') ((users st)[n := new]))"
    by (rule updated_field_distinct [OF _ du di n name]) (simp add: findByUsername_def)
  have 3: "distinct (map (\<lambda>u. getp u ''id'') ((users st)[n := new]))"
    using di len id by (intro distinct_map_list_update) simp_all
  from below len have "idBelow (nextUserId st) (users st ! n)" by simp
  with id have "idBelow (nextUserId st) new"
    by (simp add: idBelow_def)
  with below have 4: "\<forall>u \<in> set ((users st)[n := new]). idBelow (nextUserId st) u"
    using set_update_subset_insert [of "users st" n new] by auto
  from 1 2 3 4 show ?thesis
    by (simp add: st' uniqueStore_def list_all_iff)
qed

lemma distinct_remove_nth:
  assumes "distinct ys"
  shows "distinct (take n ys @ drop (Suc n) ys)"
proof -
  from assms have "distinct (take n ys @ drop n ys)" by simp
  then have "set (take n ys) \<inter> set (drop n ys) = {}"
    unfolding distinct_append by blast
  moreover have "set (drop (Suc n) ys) \<subseteq> set (drop n ys)"
    by (rule set_drop_subset_set_drop) simp
  ultimately have "set (take n ys) \<inter> set (drop (Suc n) ys) = {}" by blast
  with assms show ?thesis by simp
qed

lemma deleteUser_store:
  "snd (deleteUser c i st) = st \<or>
   (\<exists>n. snd (deleteUser c i st) =
      st\<lparr>users := take n (users st) @ drop (Suc n) (users st)\<rparr>)"
  by (auto simp: deleteUser_def deleteById_def split: option.splits)

lemma uniqueStore_deleteUser:
  assumes "uniqueStore st"
  shows "uniqueStore (snd (deleteUser c i st))"
proof (cases "snd (deleteUser c i st) = st")
  case True
  with assms show ?thesis by simp
next
  case False
  with deleteUser_store [of c i st] obtain n where
    st': "snd (deleteUser c i st) =
      st\<lparr>users := take n (users st) @ drop (Suc n) (users st)\<rparr>"
    by blast
  have d: "distinct (map f (take n (users st) @ drop (Suc n) (users st)))"
    if "distinct (map f (users st))" for f :: "obj \<Rightarrow> jsval"
    using distinct_remove_nth [OF that, of n] by (simp add: take_map drop_map)
  have "set (take n (users st) @ drop (Suc n) (users st)) \<subseteq> set (users st)"
    by (auto dest: in_set_takeD in_set_dropD)
  with assms d show ?thesis
    by (auto simp: st' uniqueStore_def list_all_iff)
qed

lemma updateUser_conflict_username:
  assumes "role c = ''admin'' \<or> parseInt (JStr i) = Some (userId c)"
    and "distinct (map (\<lambda>u. getp u ''username'') (users st))"
    and "truthy (getp b ''username'')"
    and "w \<in> set (users st)" and "getp w ''username'' = getp b ''username''"
    and "\<not> idIs (parseInt (JStr i)) w"
  shows "updateUser e c i b st =
           (Response 400 (ErrorBody ''Username already exists''
              ''A user with this username already exists''), st)"
proof -
  from distinct_map_find [OF assms(2,4)] assms(5)
  have "findByUsername st (getp b ''username'') = Some w"
    by (simp add: findByUsername_def)
  with assms(6) have "takenByOther (findByUsername st (getp b ''username'')) i"
    by (simp add: takenByOther_def)
  with assms(1,3) show ?thesis
    by (auto simp: updateUser_def Let_def)
qed

lemma updateUser_conflict_email:
  assumes "role c = ''admin'' \<or> parseInt (JStr i) = Some (userId c)"
    and "distinct (map (\<lambda>u. getp u ''email'') (users st))"
    and "truthy (getp b ''email'')"
    and "w \<in> set (users st)" and "getp w ''email'' = getp b ''email''"
    and "\<not> idIs (parseInt (JStr i)) w"
  shows "snd (updateUser e c i b st) = st \<and>
         (fst (updateUser e c i b st) =
            Response 400 (ErrorBody ''Email already exists''
              ''A user with this email already exists'') \<or>
          fst (updateUser e c i b st) =
            Response 400 (ErrorBody ''Username already exists''
              ''A user with this username already exists''))"
proof -
  from distinct_map_find [OF assms(2,4)] assms(5)
  have "findByEmail st (getp b ''email'') = Some w"
    by (simp add: findByEmail_def)
  with assms(6) have "takenByOther (findByEmail st (getp b ''email'')) i"
    by (simp add: takenByOther_def)
  with assms(1,3) show ?thesis
    by (auto simp: updateUser_def Let_def)
qed

lemma shares_email:
  "\<exists>u \<in> set (users st). getp u ''email'' = v \<Longrightarrow> findByEmail st v \<noteq> None"
  by (auto simp: findByEmail_def find_None_iff)

lemma shares_no_email:
  "\<not> (\<exists>u \<in> set (users st). getp u ''email'' = v) \<Longrightarrow> findByEmail st v = None"
  by (auto simp: findByEmail_def find_None_iff)

lemma shares_username:
  "\<exists>u \<in> set (users st). getp u ''username'' = v \<Longrightarrow> findByUsername st v \<noteq> None"
  by (auto simp: findByUsername_def find_None_iff)

text \<open>
  Handlers that run one after another, each from its request to its answer, keep the
  store unique. The store that starts with the seeded administrator satisfies
  \<open>uniqueStore\<close>, and register, update and delete keep it. Register answers 400 and
  leaves the store as it was when a record shares the email, and, the email being free,
  when a record shares the user name. After a registration that answered 201 exactly
  one record holds its email, and a further registration with that email answers 400
  and adds nothing. An authorised update whose body names a user name or an email that
  a record with another id holds answers 400 and leaves the store as it was.
\<close>

theorem sequential_uniqueness:
  "uniqueStore (initialStore t0) \<and>
   (uniqueStore st \<longrightarrow>
      uniqueStore (snd (register e b st)) \<and>
      uniqueStore (snd (updateUser e c i b st)) \<and>
      uniqueStore (snd (deleteUser c i st))) \<and>
   ((\<exists>u \<in> set (users st). getp u ''email'' = getp b ''email'') \<longrightarrow>
      register e b st =
        (Response 400 (ErrorBody ''User already exists''
           ''A user with this email already exists''), st)) \<and>
   (\<not> (\<exists>u \<in> set (users st). getp u ''email'' = getp b ''email'') \<and>
    (\<exists>u \<in> set (users st). getp u ''username'' = getp b ''username'') \<longrightarrow>
      register e b st =
        (Response 400 (ErrorBody ''User already exists''
           ''A user with this username already exists''), st)) \<and>
   (status (fst (register e b st)) = 201 \<and> getp b2 ''email'' = getp b ''email'' \<longrightarrow>
      emailCount (snd (register e b st)) (getp b ''email'') = 1 \<and>
      register e2 b2 (snd (register e b st)) =
        (Response 400 (ErrorBody ''User already exists''
           ''A user with this email already exists''), snd (register e b st))) \<and>
   (uniqueStore st \<and>
    (role c = ''admin'' \<or> parseInt (JStr i) = Some (userId c)) \<and>
    truthy (getp b ''username'') \<and>
    (\<exists>w \<in> set (users st).
       getp w ''username'' = getp b ''username'' \<and> \<not> idIs (parseInt (JStr i)) w) \<longrightarrow>
      updateUser e c i b st =
        (Response 400 (ErrorBody ''Username already exists''
           ''A user with this username already exists''), st)) \<and>
   (uniqueStore st \<and>
    (role c = ''admin'' \<or> parseInt (JStr i) = Some (userId c)) \<and>
    truthy (getp b ''email'') \<and>
    (\<exists>w \<in> set (users st).
       getp w ''email'' = getp b ''email'' \<and> \<not> idIs (parseInt (JStr i)) w) \<longrightarrow>
      snd (updateUser e c i b st) = st \<and>
      (fst (updateUser e c i b st) =
         Response 400 (ErrorBody ''Email already exists''
           ''A user with this email already exists'') \<or>
       fst (updateUser e c i b st) =
         Response 400 (ErrorBody ''Username already exists''
           ''A user with this username already exists'')))"
proof (intro conjI impI)
  show "uniqueStore (initialStore t0)"
    by (rule uniqueStore_initial)
next
  assume "uniqueStore st"
  then show "uniqueStore (snd (register e b st))"
    by (rule uniqueStore_register)
next
  assume "uniqueStore st"
  then show "uniqueStore (snd (updateUser e c i b st))"
    by (rule uniqueStore_updateUser)
next
  assume "uniqueStore st"
  then show "uniqueStore (snd (deleteUser c i st))"
    by (rule uniqueStore_deleteUser)
next
  assume "\<exists>u \<in> set (users st). getp u ''email'' = getp b ''email''"
  then have "findByEmail st (getp b ''email'') \<noteq> None"
    by (rule shares_email)
  then show "register e b st =
        (Response 400 (ErrorBody ''User already exists''
           ''A user with this email already exists''), st)"
    by (rule register_conflict_email)
next
  assume "\<not> (\<exists>u \<in> set (users st). getp u ''email'' = getp b ''email'') \<and>
    (\<exists>u \<in> set (users st). getp u ''username'' = getp b ''username'')"
  then have "findByEmail st (getp b ''email'') = None"
    and "findByUsername st (getp b ''username'') \<noteq> None"
    by (simp_all add: shares_no_email shares_username)
  then show "register e b st =
        (Response 400 (ErrorBody ''User already exists''
           ''A user with this username already exists''), st)"
    by (rule register_conflict_username)
next
  assume a: "status (fst (register e b st)) = 201 \<and> getp b2 ''email'' = getp b ''email''"
  then have "status (fst (register e b st)) = 201" and "getp b2 ''email'' = getp b ''email''"
    by simp_all
  from register_twice [OF this]
  show "emailCount (snd (register e b st)) (getp b ''email'') = 1"
    and "register e2 b2 (snd (register e b st)) =
        (Response 400 (ErrorBody ''User already exists''
           ''A user with this email already exists''), snd (register e b st))"
    by simp_all
next
  assume a: "uniqueStore st \<and>
    (role c = ''admin'' \<or> parseInt (JStr i) = Some (userId c)) \<and>
    truthy (getp b ''username'') \<and>
    (\<exists>w \<in> set (users st).
       getp w ''username'' = getp b ''username'' \<and> \<not> idIs (parseInt (JStr i)) w)"
  then obtain w where w: "w \<in> set (users st)" "getp w ''username'' = getp b ''username''"
    "\<not> idIs (parseInt (JStr i)) w"
    by (elim conjE bexE)
  from a have d: "distinct (map (\<lambda>u. getp u ''username'') (users st))"
    and auth: "role c = ''admin'' \<or> parseInt (JStr i) = Some (userId c)"
    and t: "truthy (getp b ''username'')"
    by (simp_all add: uniqueStore_def)
  show "updateUser e c i b st =
        (Response 400 (ErrorBody ''Username already exists''
           ''A user with this username already exists''), st)"
    by (rule updateUser_conflict_username [OF auth d t w])
next
  assume a: "uniqueStore st \<and>
    (role c = ''admin'' \<or> parseInt (JStr i) = Some (userId c)) \<and>
    truthy (getp b ''email'') \<and>
    (\<exists>w \<in> set (users st).
       getp w ''email'' = getp b ''email'' \<and> \<not> idIs (parseInt (JStr i)) w)"
  then obtain w where w: "w \<in> set (users st)" "getp w ''email'' = getp b ''email''"
    "\<not> idIs (parseInt (JStr i)) w"
    by (elim conjE bexE)
  from a have d: "distinct (map (\<lambda>u. getp u ''email'') (users st))"
    and auth: "role c = ''admin'' \<or> parseInt (JStr i) = Some (userId c)"
    and t: "truthy (getp b ''email'')"
    by (simp_all add: uniqueStore_def)
  from updateUser_conflict_email [OF auth d t w, of e]
  show "snd (updateUser e c i b st) = st"
    and "fst (updateUser e c i b st) =
         Response 400 (ErrorBody ''Email already exists''
           ''A user with this email already exists'') \<or>
       fst (updateUser e c i b st) =
         Response 400 (ErrorBody ''Username already exists''
           ''A user with this username already exists'')"
    by simp_all
qed

theorem sequential_uniqueness_example:
  "uniqueStore twoUsers \<and>
   emailCount twoUsers (JStr ''alice@x.com'') = 1 \<and>
   register exampleEnv
     [(''username'', JStr ''alice2''), (''email'', JStr ''alice@x.com''),
      (''password'', JStr ''Other456'')] twoUsers =
     (Response 400 (ErrorBody ''User already exists''
        ''A user with this email already exists''), twoUsers) \<and>
   register exampleEnv
     [(''username'', JStr ''alice''), (''email'', JStr ''other@x.com''),
      (''password'', JStr ''Other456'')] twoUsers =
     (Response 400 (ErrorBody ''User already exists''
        ''A user with this username already exists''), twoUsers) \<and>
   updateUser exampleEnv aliceClaims ''2'' [(''username'', JStr ''admin'')] twoUsers =
     (Response 400 (ErrorBody ''Username already exists''
        ''A user with this username already exists''), twoUsers) \<and>
   snd (updateUser exampleEnv aliceClaims ''2'' [(''email'', JStr ''admin@example.com'')]
          twoUsers) = twoUsers"
proof -
  let ?again = "[(''username'', JStr ''alice2''), (''email'', JStr ''alice@x.com''),
      (''password'', JStr ''Other456'')]"
  let ?name = "[(''username'', JStr ''alice''), (''email'', JStr ''other@x.com''),
      (''password'', JStr ''Other456'')]"
  have reg: "register exampleEnv aliceBody (initialStore ''t0'') =
     (Response 201 (AuthBody ''User registered successfully'' ''token'' aliceView), twoUsers)"
    by (rule register_alice)
  have mail: "getp ?again ''email'' = getp aliceBody ''email''"
    and mail': "getp aliceBody ''email'' = JStr ''alice@x.com''"
    by (simp_all add: getp_def aliceBody_def)
  note first = sequential_uniqueness [where ?t0.0 = "''t0''" and st = "initialStore ''t0''"
      and e = exampleEnv and b = aliceBody and ?b2.0 = ?again and ?e2.0 = exampleEnv]
  from first have u: "uniqueStore twoUsers"
    by (simp add: reg)
  from first mail have twice:
    "emailCount twoUsers (JStr ''alice@x.com'') = 1 \<and>
     register exampleEnv ?again twoUsers =
       (Response 400 (ErrorBody ''User already exists''
          ''A user with this email already exists''), twoUsers)"
    by (simp add: reg mail')
  from sequential_uniqueness [where st = twoUsers and e = exampleEnv and b = ?name]
  have name: "register exampleEnv ?name twoUsers =
     (Response 400 (ErrorBody ''User already exists''
        ''A user with this username already exists''), twoUsers)"
    by (simp add: example_eval)
  from u sequential_uniqueness [where st = twoUsers and e = exampleEnv and c = aliceClaims
      and i = "''2''" and b = "[(''username'', JStr ''admin'')]"]
  have upd1: "updateUser exampleEnv aliceClaims ''2'' [(''username'', JStr ''admin'')] twoUsers =
     (Response 400 (ErrorBody ''Username already exists''
        ''A user with this username already exists''), twoUsers)"
    by (simp add: example_eval parseInt_2)
  from u sequential_uniqueness [where st = twoUsers and e = exampleEnv and c = aliceClaims
      and i = "''2''" and b = "[(''email'', JStr ''admin@example.com'')]"]
  have upd2: "snd (updateUser exampleEnv aliceClaims ''2''
      [(''email'', JStr ''admin@example.com'')] twoUsers) = twoUsers"
    by (simp add: example_eval parseInt_2)
  from u twice name upd1 upd2 show ?thesis by simp
qed

section \<open>Registrations that arrive together\<close>

lemma registerStep_Received:
  "registerStep e (Received b) st =
     (AwaitingEmailLookup b (findByEmail st (getp b ''email'')), st)"
  by (simp add: registerStep_def)

lemma registerStep_email_taken:
  "registerStep e (AwaitingEmailLookup b (Some u)) st =
     (Responded (Response 400 (ErrorBody ''User already exists''
        ''A user with this email already exists'')), st)"
  by (simp add: registerStep_def)

lemma registerStep_email_free:
  "registerStep e (AwaitingEmailLookup b None) st =
     (AwaitingUsernameLookup b (findByUsername st (getp b ''username'')), st)"
  by (simp add: registerStep_def)

lemma registerStep_username_taken:
  "registerStep e (AwaitingUsernameLookup b (Some u)) st =
     (Responded (Response 400 (ErrorBody ''User already exists''
        ''A user with this username already exists'')), st)"
  by (simp add: registerStep_def)

lemma registerStep_username_free:
  "registerStep e (AwaitingUsernameLookup b None) st =
     (AwaitingHash b (bcryptHash e (getp b ''password'')), st)"
  by (simp add: registerStep_def)

lemma registerStep_hash_failed:
  "registerStep e (AwaitingHash b None) st =
     (Responded (Response 500 (ErrorBody ''Server error''
        ''An error occurred during registration'')), st)"
  by (simp add: registerStep_def)

lemma registerStep_hashed:
  "registerStep e (AwaitingHash b (Some h)) st =
     (AwaitingCreate
        (fst (create (now e)
           [(''username'', getp b ''username''), (''email'', getp b ''email''),
            (''password'', JStr h)] st)),
      snd (create (now e)
           [(''username'', getp b ''username''), (''email'', getp b ''email''),
            (''password'', JStr h)] st))"
  by (simp add: registerStep_def split: prod.splits)

lemma registerStep_created:
  "registerStep e (AwaitingCreate newUser) st =
     (case jwtSign e (tokenPayload newUser) of
        None \<Rightarrow>
          (Responded (Response 500 (ErrorBody ''Server error''
             ''An error occurred during registration'')), st)
      | Some token \<Rightarrow>
          (Responded (Response 201
             (AuthBody ''User registered successfully'' token newUser)), st))"
  by (simp add: registerStep_def)

lemma registerStep_Responded: "registerStep e (Responded r) st = (Responded r, st)"
  by (simp add: registerStep_def)

lemmas registerStep_simps = registerStep_Received registerStep_email_taken
  registerStep_email_free registerStep_username_taken registerStep_username_free
  registerStep_hash_failed registerStep_hashed registerStep_created registerStep_Responded

text \<open>Left to run alone, the steps of a registration are the handler \<open>register\<close>.\<close>

lemma registerSteps_register:
  "registerSteps e 5 (Received b, st) =
     (Responded (fst (register e b st)), snd (register e b st))"
proof (cases "findByEmail st (getp b ''email'')")
  case (Some u)
  then show ?thesis
    by (simp add: eval_nat_numeral registerStep_simps register_def Let_def)
next
  case email: None
  show ?thesis
  proof (cases "findByUsername st (getp b ''username'')")
    case (Some u)
    with email show ?thesis
      by (simp add: eval_nat_numeral registerStep_simps register_def Let_def)
  next
    case name: None
    show ?thesis
    proof (cases "bcryptHash e (getp b ''password'')")
      case None
      with email name show ?thesis
        by (simp add: eval_nat_numeral registerStep_simps register_def Let_def)
    next
      case (Some h)
      with email name show ?thesis
        by (simp add: eval_nat_numeral registerStep_simps register_def Let_def
            split: prod.splits option.splits)
    qed
  qed
qed

lemma lookups_initial:
  "findByEmail (initialStore ''t0'') (getp aliceBody ''email'') = None"
  "findByUsername (initialStore ''t0'') (getp aliceBody ''username'') = None"
  "findByEmail (initialStore ''t0'') (getp aliceAgainBody ''email'') = None"
  "findByUsername (initialStore ''t0'') (getp aliceAgainBody ''username'') = None"
  by (simp_all add: findByEmail_def findByUsername_def initialStore_def adminRecord_def
      aliceBody_def aliceAgainBody_def getp_def)

lemma hashes_example:
  "bcryptHash exampleEnv (getp aliceBody ''password'') = Some ''hash-of-Secret123''"
  "bcryptHash exampleEnv (getp aliceAgainBody ''password'') = Some ''hash-of-Other456''"
  by (simp_all add: exampleEnv_def aliceBody_def aliceAgainBody_def getp_def)

lemma create_alice:
  "create (now exampleEnv)
     [(''username'', getp aliceBody ''username''), (''email'', getp aliceBody ''email''),
      (''password'', JStr ''hash-of-Secret123'')] (initialStore ''t0'') =
   (aliceView, twoUsers)"
  by (simp add: create_registration initialStore_def twoUsers_def aliceRecord_def aliceView_def
      aliceBody_def getp_def exampleEnv_def)

lemma create_aliceAgain:
  "create (now exampleEnv)
     [(''username'', getp aliceAgainBody ''username''),
      (''email'', getp aliceAgainBody ''email''),
      (''password'', JStr ''hash-of-Other456'')] twoUsers =
   (aliceAgainView, threeUsers)"
  by (simp add: create_registration twoUsers_def threeUsers_def aliceAgainRecord_def
      aliceAgainView_def aliceAgainBody_def getp_def exampleEnv_def)

lemma sign_example: "jwtSign exampleEnv payload = Some ''token''"
  by (simp add: exampleEnv_def)

text \<open>
  Claim C4. Uniqueness of the email is not an invariant of the store. The handler
  looks the email up, is suspended at \<open>await bcrypt.hash\<close>, and writes the record when
  it is resumed, without looking again. Two registrations with one email and different
  user names that arrive together on the seeded store each pass the look-ups before
  the other has written: both answer 201, and the store then holds two records with
  that email.
\<close>

theorem concurrent_registrations_share_email:
  "interleave exampleEnv exampleEnv togetherSchedule
     (Received aliceBody, Received aliceAgainBody, initialStore ''t0'') =
     (Responded (Response 201 (AuthBody ''User registered successfully'' ''token'' aliceView)),
      Responded (Response 201
        (AuthBody ''User registered successfully'' ''token'' aliceAgainView)),
      threeUsers) \<and>
   emailCount threeUsers (JStr ''alice@x.com'') = 2 \<and>
   \<not> uniqueStore threeUsers"
proof -
  have run: "interleave exampleEnv exampleEnv togetherSchedule
     (Received aliceBody, Received aliceAgainBody, initialStore ''t0'') =
     (Responded (Response 201 (AuthBody ''User registered successfully'' ''token'' aliceView)),
      Responded (Response 201
        (AuthBody ''User registered successfully'' ''token'' aliceAgainView)),
      threeUsers)"
    by (simp add: interleave_def togetherSchedule_def scheduleStep_def registerStep_simps
        lookups_initial hashes_example create_alice create_aliceAgain sign_example)
  have count: "emailCount threeUsers (JStr ''alice@x.com'') = 2"
    by (simp add: emailCount_def threeUsers_def adminRecord_def aliceRecord_def
        aliceAgainRecord_def getp_def)
  have "\<not> distinct (map (\<lambda>u. getp u ''email'') (users threeUsers))"
    by (simp add: threeUsers_def adminRecord_def aliceRecord_def aliceAgainRecord_def getp_def)
  then have "\<not> uniqueStore threeUsers"
    by (simp add: uniqueStore_def)
  with run count show ?thesis by simp
qed

end
